theory Spec2Isabelle
  imports Main "HOL-Library.Char_ord" "HOL-Library.List_Lexorder"
begin

section \<open>Data model of the streaming protocol (StreamingProtocol.hpp)\<close>

datatype ParserState = IDLE | IN_THOUGHT | IN_ACTION | IN_RESPONSE | IN_CONTEXT_FEED

datatype ExecutionMode = SYNC | ASYNC | FIRE_AND_FORGET

datatype ActionType = TOOL | AGENT | RELIC | WORKFLOW | LLM | INTERNAL

text \<open>
  \<open>Json::Value\<close> of the jsoncpp library. An object is a \<open>std::map\<close>: an association
  list with one entry per key. Floating point numbers are not interpreted: their
  payload is an uninterpreted type, and what the library computes from them is a
  parameter of the model.
\<close>

typedecl double

datatype json =
    JNull
  | JBool bool
  | JInt int
  | JReal double
  | JString string
  | JArray "json list"
  | JObject "(string \<times> json) list"

text \<open>\<open>struct ParsedAction\<close>; the fields \<open>id\<close>, \<open>type\<close>, \<open>mode\<close>, \<open>name\<close> carry a prefix.\<close>

record ParsedAction =
  action_id :: string
  action_type :: ActionType
  action_mode :: ExecutionMode
  action_name :: string
  parameters :: json
  outputKey :: string
  dependsOn :: "string list"
  embeddedInThought :: bool
  timeout :: int
  retryCount :: int
  skipOnError :: bool

text \<open>
  \<open>std::make_shared<ParsedAction>()\<close> value-initialises the struct: the members with a
  default member initialiser take it (\<open>timeout = 30\<close>, \<open>retryCount = 0\<close>,
  \<open>skipOnError = false\<close>, \<open>embeddedInThought = false\<close>), strings and the vector are empty,
  the \<open>Json::Value\<close> is null, and the two enums, which have no initialiser, are
  zero-initialised to their first enumerators \<open>TOOL\<close> and \<open>SYNC\<close>.
\<close>

definition new_ParsedAction :: ParsedAction where
  "new_ParsedAction =
     \<lparr> action_id = [], action_type = TOOL, action_mode = SYNC, action_name = [],
       parameters = JNull, outputKey = [], dependsOn = [], embeddedInThought = False,
       timeout = 30, retryCount = 0, skipOnError = False \<rparr>"

record ContextFeed =
  feed_id :: string
  feed_type :: string
  feed_source :: json
  feed_content :: string
  cacheTtl :: int
  maxTokens :: int

definition new_ContextFeed :: ContextFeed where
  "new_ContextFeed =
     \<lparr> feed_id = [], feed_type = [], feed_source = JNull, feed_content = [],
       cacheTtl = 0, maxTokens = 0 \<rparr>"

datatype EventType = THOUGHT | ACTION_START | ACTION_COMPLETE | RESPONSE | CONTEXT_FEED | ERROR

text \<open>
  A \<open>std::map<std::string, V>\<close> is kept as an association list sorted by key (bytewise
  lexicographic order, as \<open>std::string::operator<\<close>), so that iterating it visits the
  keys in the order the C++ map does.
\<close>

type_synonym 'v strmap = "(string \<times> 'v) list"

fun map_set :: "string \<Rightarrow> 'v \<Rightarrow> 'v strmap \<Rightarrow> 'v strmap" where
  "map_set k v [] = [(k, v)]"
| "map_set k v ((k', v') # m) =
     (if k = k' then (k, v) # m
      else if k < k' then (k, v) # (k', v') # m
      else (k', v') # map_set k v m)"

definition map_count :: "string \<Rightarrow> 'v strmap \<Rightarrow> bool" where
  "map_count k m = (map_of m k \<noteq> None)"

definition map_erase :: "string \<Rightarrow> 'v strmap \<Rightarrow> 'v strmap" where
  "map_erase k m = filter (\<lambda>kv. fst kv \<noteq> k) m"

record TokenEvent =
  ev_type :: EventType
  ev_content :: string
  ev_action :: "ParsedAction option"
  ev_metadata :: "string strmap"

definition new_TokenEvent :: "EventType \<Rightarrow> TokenEvent" where
  "new_TokenEvent t = \<lparr> ev_type = t, ev_content = [], ev_action = None, ev_metadata = [] \<rparr>"

text \<open>
  The action executor is a callback that returns a JSON value or throws (\<open>Inl\<close> carries
  \<open>what()\<close>). It may be stateful: the model hands it the list of the actions dispatched
  before, which is all of the parser it can have seen.
\<close>

type_synonym ActionExecutor = "ParsedAction list \<Rightarrow> ParsedAction \<Rightarrow> string + json"

text \<open>
  The fields of \<open>class Parser\<close>. \<open>tokenCallback\<close> records whether a callback is set; the
  events handed to it are appended to \<open>emitted\<close>. \<open>dispatched\<close> is the log of the executor
  invocations: the action, and the completion map at the moment of the call.
\<close>

record Parser =
  state :: ParserState
  buffer :: string
  currentThought :: string
  currentAction :: string
  currentResponse :: string
  currentContextFeed :: string
  lastEmittedThoughtPos :: nat
  currentAttributes :: "string strmap"
  actionExecutor :: "ActionExecutor option"
  tokenCallback :: bool
  actionResults :: "json strmap"
  actionCompleted :: "bool strmap"
  pendingActions :: "ParsedAction list"
  contextFeeds :: "ContextFeed strmap"
  emitted :: "TokenEvent list"
  dispatched :: "(ParsedAction \<times> bool strmap) list"

definition new_Parser :: "ActionExecutor option \<Rightarrow> Parser" where
  "new_Parser executor =
     \<lparr> state = IDLE, buffer = [], currentThought = [], currentAction = [],
       currentResponse = [], currentContextFeed = [], lastEmittedThoughtPos = 0,
       currentAttributes = [], actionExecutor = executor, tokenCallback = False,
       actionResults = [], actionCompleted = [], pendingActions = [], contextFeeds = [],
       emitted = [], dispatched = [] \<rparr>"

definition setTokenCallback :: "Parser \<Rightarrow> Parser" where
  "setTokenCallback p = p\<lparr>tokenCallback := True\<rparr>"

definition emitToken :: "TokenEvent \<Rightarrow> Parser \<Rightarrow> Parser" where
  "emitToken event p = (if tokenCallback p then p\<lparr>emitted := emitted p @ [event]\<rparr> else p)"

definition reset :: "Parser \<Rightarrow> Parser" where
  "reset p = p\<lparr> state := IDLE, buffer := [], currentThought := [], currentAction := [],
               currentResponse := [], currentContextFeed := [], currentAttributes := [],
               actionResults := [], actionCompleted := [], pendingActions := [],
               lastEmittedThoughtPos := 0 \<rparr>"

definition addContextFeed :: "ContextFeed \<Rightarrow> Parser \<Rightarrow> Parser" where
  "addContextFeed feed p = p\<lparr>contextFeeds := map_set (feed_id feed) feed (contextFeeds p)\<rparr>"

definition getContextFeedValue :: "string \<Rightarrow> Parser \<Rightarrow> string" where
  "getContextFeedValue feedId p =
     (case map_of (contextFeeds p) feedId of Some f \<Rightarrow> feed_content f | None \<Rightarrow> [])"

lemma map_of_map_set: "map_of (map_set k v m) = (map_of m)(k \<mapsto> v)"
  by (induction m) (auto simp: fun_eq_iff)

section \<open>Strings and the regular expressions of the source\<close>

text \<open>\<open>std::string::find\<close>: the index of the first occurrence, \<open>None\<close> for \<open>npos\<close>.\<close>

primrec starts_with :: "string \<Rightarrow> string \<Rightarrow> bool" where
  "starts_with [] s = True"
| "starts_with (c # cs) s = (case s of [] \<Rightarrow> False | d # ds \<Rightarrow> c = d \<and> starts_with cs ds)"

fun find_str :: "string \<Rightarrow> string \<Rightarrow> nat option" where
  "find_str pat [] = (if pat = [] then Some 0 else None)"
| "find_str pat (c # cs) =
     (if starts_with pat (c # cs) then Some 0 else map_option Suc (find_str pat cs))"

definition find_from :: "string \<Rightarrow> string \<Rightarrow> nat \<Rightarrow> nat option" where
  "find_from pat s pos =
     (if pos \<le> length s then map_option (\<lambda>i. i + pos) (find_str pat (drop pos s)) else None)"

definition newline :: char where
  "newline = CHR 0x0A"

text \<open>The character classes \<open>\w\<close> and \<open>\s\<close> of \<open>std::regex\<close> in the C locale.\<close>

definition is_word :: "char \<Rightarrow> bool" where
  "is_word c = ((CHR ''a'' \<le> c \<and> c \<le> CHR ''z'') \<or> (CHR ''A'' \<le> c \<and> c \<le> CHR ''Z'')
                \<or> (CHR ''0'' \<le> c \<and> c \<le> CHR ''9'') \<or> c = CHR ''_'')"

definition is_space :: "char \<Rightarrow> bool" where
  "is_space c = (c = CHR '' '' \<or> (CHR 0x09 \<le> c \<and> c \<le> CHR 0x0D))"

definition is_quote :: "char \<Rightarrow> bool" where
  "is_quote c = (c = CHR 0x22 \<or> c = CHR 0x27)"

text \<open>
  \<open>(\w+)\s*=\s*["']([^"']*)["']\<close> matched at the start of a string: the key, the value
  and the text after the match. Every repetition is followed by a character outside its
  class, so the greedy match is the only one.
\<close>

definition match_attr_at :: "string \<Rightarrow> (string \<times> string \<times> string) option" where
  "match_attr_at s =
     (let key = takeWhile is_word s; r1 = dropWhile is_space (dropWhile is_word s) in
      if key = [] then None
      else (case r1 of
              [] \<Rightarrow> None
            | e # r2 \<Rightarrow>
                (if e \<noteq> CHR ''='' then None
                 else (case dropWhile is_space r2 of
                         [] \<Rightarrow> None
                       | q # r3 \<Rightarrow>
                           (if \<not> is_quote q then None
                            else (case dropWhile (\<lambda>c. \<not> is_quote c) r3 of
                                    [] \<Rightarrow> None
                                  | q2 # r4 \<Rightarrow>
                                      Some (key, takeWhile (\<lambda>c. \<not> is_quote c) r3, r4)))))))"

lemma match_attr_at_shorter:
  assumes "match_attr_at s = Some (k, v, r)"
  shows "length r < length s"
proof -
  have sp: "length (dropWhile is_space (dropWhile is_word s)) \<le> length s"
    by (meson length_dropWhile_le order_trans)
  from assms obtain e r2 where r1: "dropWhile is_space (dropWhile is_word s) = e # r2"
    by (auto simp: match_attr_at_def Let_def split: if_splits list.splits)
  from assms r1 obtain q r3 where r2: "dropWhile is_space r2 = q # r3"
    by (auto simp: match_attr_at_def Let_def split: if_splits list.splits)
  from assms r1 r2 obtain q2 where r3: "dropWhile (\<lambda>c. \<not> is_quote c) r3 = q2 # r"
    by (auto simp: match_attr_at_def Let_def split: if_splits list.splits)
  have "length r < length r3"
    using length_dropWhile_le [of "\<lambda>c. \<not> is_quote c" r3] r3 by simp
  moreover have "length r3 < length r2"
    using length_dropWhile_le [of is_space r2] r2 by simp
  moreover have "length r2 < length s"
    using sp r1 by simp
  ultimately show ?thesis by simp
qed

text \<open>The matches a \<open>std::sregex_iterator\<close> visits: leftmost first, then from the end of the match.\<close>

function attr_matches :: "string \<Rightarrow> (string \<times> string) list" where
  "attr_matches [] = []"
| "attr_matches (c # cs) =
     (case match_attr_at (c # cs) of
        Some (k, v, r) \<Rightarrow> (k, v) # attr_matches r
      | None \<Rightarrow> attr_matches cs)"
  by pat_completeness auto
termination
  by (relation "measure length") (auto dest: match_attr_at_shorter)

definition parseAttributes :: "string \<Rightarrow> string strmap" where
  "parseAttributes attrString = foldl (\<lambda>attrs kv. map_set (fst kv) (snd kv) attrs) [] (attr_matches attrString)"

text \<open>
  \<open>\$(\w+)\<close>: position, length and identifier of every match, where \<open>pos\<close> is the index
  of the first character of the string in the whole input.
\<close>

function var_matches :: "nat \<Rightarrow> string \<Rightarrow> (nat \<times> nat \<times> string) list" where
  "var_matches pos [] = []"
| "var_matches pos (c # cs) =
     (if c = CHR ''$'' \<and> takeWhile is_word cs \<noteq> []
      then (pos, Suc (length (takeWhile is_word cs)), takeWhile is_word cs)
             # var_matches (pos + Suc (length (takeWhile is_word cs))) (dropWhile is_word cs)
      else var_matches (Suc pos) cs)"
  by pat_completeness auto
termination
  by (relation "measure (\<lambda>(pos, s). length s)")
     (auto intro: le_imp_less_Suc length_dropWhile_le)

text \<open>\<open>std::to_string\<close> of an integer.\<close>

fun digits :: "nat \<Rightarrow> string" where
  "digits n = (if n < 10 then [''0123456789'' ! n] else digits (n div 10) @ [''0123456789'' ! (n mod 10)])"

definition to_string :: "int \<Rightarrow> string" where
  "to_string i = (if i < 0 then CHR ''-'' # digits (nat (- i)) else digits (nat i))"

text \<open>The four passes of \<open>Parser::cleanJSON\<close>.\<close>

function strip_line_comments :: "string \<Rightarrow> string" where
  "strip_line_comments [] = []"
| "strip_line_comments (c # cs) =
     (if starts_with ''//'' (c # cs)
      then strip_line_comments (dropWhile (\<lambda>x. x \<noteq> newline) (tl cs))
      else c # strip_line_comments cs)"
  by pat_completeness auto
termination
proof (relation "measure length", goal_cases)
  case (2 c cs)
  then show ?case
    using length_dropWhile_le [of "\<lambda>x. x \<noteq> newline" "tl cs"] by (cases cs) auto
qed auto

text \<open>
  \<open>/\*.*?\*/\<close>: the dot matches no line terminator, and the lazy star stops at the first
  \<open>*/\<close>, so a block comment is removed only when it closes on its own line.
\<close>

definition block_comment_end :: "string \<Rightarrow> nat option" where
  "block_comment_end s =
     (if starts_with ''/*'' s then
        (case find_str ''*/'' (drop 2 s) of
           None \<Rightarrow> None
         | Some k \<Rightarrow>
             if list_all (\<lambda>c. c \<noteq> newline \<and> c \<noteq> CHR 0x0D) (take k (drop 2 s))
             then Some (k + 4) else None)
      else None)"

function strip_block_comments :: "string \<Rightarrow> string" where
  "strip_block_comments [] = []"
| "strip_block_comments (c # cs) =
     (case block_comment_end (c # cs) of
        Some n \<Rightarrow> strip_block_comments (drop n (c # cs))
      | None \<Rightarrow> c # strip_block_comments cs)"
  by pat_completeness auto
termination
  by (relation "measure length")
     (auto simp: block_comment_end_def split: if_splits option.splits)

function strip_trailing_commas :: "string \<Rightarrow> string" where
  "strip_trailing_commas [] = []"
| "strip_trailing_commas (c # cs) =
     (if c = CHR '','' then
        (case dropWhile is_space cs of
           [] \<Rightarrow> c # strip_trailing_commas cs
         | b # r \<Rightarrow>
             if b = CHR '']'' \<or> b = CHR ''}'' then b # strip_trailing_commas r
             else c # strip_trailing_commas cs)
      else c # strip_trailing_commas cs)"
  by pat_completeness auto
termination
proof (relation "measure length", goal_cases)
  case (3 c cs b r)
  then show ?case
    using length_dropWhile_le [of is_space cs] by simp
qed auto

definition is_trim_ws :: "char \<Rightarrow> bool" where
  "is_trim_ws c = (c = CHR '' '' \<or> c = CHR 0x09 \<or> c = newline \<or> c = CHR 0x0D)"

definition trim :: "string \<Rightarrow> string" where
  "trim s = (if list_all is_trim_ws s then s
             else rev (dropWhile is_trim_ws (rev (dropWhile is_trim_ws s))))"

definition cleanJSON :: "string \<Rightarrow> string" where
  "cleanJSON rawJSON = trim (strip_trailing_commas (strip_block_comments (strip_line_comments rawJSON)))"

section \<open>The JSON library, as the parser uses it\<close>

text \<open>
  What jsoncpp and the floating point conversions of the C++ library compute is not part
  of the repository. The text parser, the compact writer and everything that reads a
  floating point payload are parameters. \<open>isDouble\<close> is one of them as well: jsoncpp
  answers it for integral values according to its version, and with \<open>true\<close> in the
  versions that have the \<open>CharReaderBuilder\<close> the parser uses.
\<close>

record JsonLib =
  parseFromStream :: "string \<Rightarrow> string + json"
  writeString :: "json \<Rightarrow> string"
  isDouble :: "json \<Rightarrow> bool"
  to_string_asDouble :: "json \<Rightarrow> string"
  real_asString :: "double \<Rightarrow> string"
  real_asInt :: "double \<Rightarrow> string + int"
  real_asBool :: "double \<Rightarrow> bool"

text \<open>
  The accessors of \<open>Json::Value\<close>. A conversion the library refuses throws
  \<open>Json::LogicError\<close>, a \<open>std::exception\<close>: \<open>Inl\<close> with its message.
\<close>

definition isMember :: "string \<Rightarrow> json \<Rightarrow> string + bool" where
  "isMember key v =
     (case v of
        JObject kvs \<Rightarrow> Inr (map_count key kvs)
      | JNull \<Rightarrow> Inr False
      | _ \<Rightarrow> Inl ''in Json::Value::find(begin, end): requires objectValue or nullValue'')"

definition member :: "string \<Rightarrow> json \<Rightarrow> json" where
  "member key v =
     (case v of
        JObject kvs \<Rightarrow> (case map_of kvs key of Some x \<Rightarrow> x | None \<Rightarrow> JNull)
      | _ \<Rightarrow> JNull)"

definition asString :: "JsonLib \<Rightarrow> json \<Rightarrow> string + string" where
  "asString lib v =
     (case v of
        JNull \<Rightarrow> Inr []
      | JString s \<Rightarrow> Inr s
      | JBool b \<Rightarrow> Inr (if b then ''true'' else ''false'')
      | JInt n \<Rightarrow> Inr (to_string n)
      | JReal d \<Rightarrow> Inr (real_asString lib d)
      | _ \<Rightarrow> Inl ''Type is not convertible to string'')"

definition asInt :: "JsonLib \<Rightarrow> json \<Rightarrow> string + int" where
  "asInt lib v =
     (case v of
        JInt n \<Rightarrow> (if - 2147483648 \<le> n \<and> n \<le> 2147483647 then Inr n
                   else Inl ''LargestInt out of Int range'')
      | JReal d \<Rightarrow> real_asInt lib d
      | JNull \<Rightarrow> Inr 0
      | JBool b \<Rightarrow> Inr (if b then 1 else 0)
      | _ \<Rightarrow> Inl ''Value is not convertible to Int.'')"

definition asBool :: "JsonLib \<Rightarrow> json \<Rightarrow> string + bool" where
  "asBool lib v =
     (case v of
        JBool b \<Rightarrow> Inr b
      | JNull \<Rightarrow> Inr False
      | JInt n \<Rightarrow> Inr (n \<noteq> 0)
      | JReal d \<Rightarrow> Inr (real_asBool lib d)
      | _ \<Rightarrow> Inl ''Value is not convertible to bool.'')"

text \<open>Sequencing of computations that may throw.\<close>

definition bindE :: "string + 'a \<Rightarrow> ('a \<Rightarrow> string + 'b) \<Rightarrow> string + 'b" where
  "bindE m f = (case m of Inl e \<Rightarrow> Inl e | Inr x \<Rightarrow> f x)"

section \<open>Variable resolution (Parser::resolveVariables)\<close>

text \<open>The rendering of an action result: the chain of type tests of \<open>resolveVariables\<close>.\<close>

definition scalarRendering :: "JsonLib \<Rightarrow> json \<Rightarrow> string" where
  "scalarRendering lib v =
     (case v of
        JString s \<Rightarrow> s
      | JInt n \<Rightarrow> (if isDouble lib v then to_string_asDouble lib v else to_string n)
      | JReal d \<Rightarrow> to_string_asDouble lib v
      | JBool b \<Rightarrow> (if b then ''true'' else ''false'')
      | JNull \<Rightarrow> ''null''
      | _ \<Rightarrow> writeString lib v)"

definition lookupVariable :: "JsonLib \<Rightarrow> Parser \<Rightarrow> string \<Rightarrow> string" where
  "lookupVariable lib p varName =
     (case map_of (actionResults p) varName of
        Some v \<Rightarrow> scalarRendering lib v
      | None \<Rightarrow>
          (case map_of (contextFeeds p) varName of
             Some feed \<Rightarrow> feed_content feed
           | None \<Rightarrow> []))"

text \<open>The \<open>Replacement\<close> records: position, length, value; only non-empty values are kept.\<close>

definition replacements :: "JsonLib \<Rightarrow> Parser \<Rightarrow> string \<Rightarrow> (nat \<times> nat \<times> string) list" where
  "replacements lib p input =
     filter (\<lambda>r. snd (snd r) \<noteq> [])
       (map (\<lambda>m. (fst m, fst (snd m), lookupVariable lib p (snd (snd m)))) (var_matches 0 input))"

definition replace :: "string \<Rightarrow> nat \<times> nat \<times> string \<Rightarrow> string" where
  "replace result r = take (fst r) result @ snd (snd r) @ drop (fst r + fst (snd r)) result"

definition resolveVariables :: "JsonLib \<Rightarrow> Parser \<Rightarrow> string \<Rightarrow> string" where
  "resolveVariables lib p input = foldl replace input (rev (replacements lib p input))"

fun resolveVariablesJson :: "JsonLib \<Rightarrow> Parser \<Rightarrow> json \<Rightarrow> json" where
  "resolveVariablesJson lib p (JString s) = JString (resolveVariables lib p s)"
| "resolveVariablesJson lib p (JArray items) = JArray (map (resolveVariablesJson lib p) items)"
| "resolveVariablesJson lib p (JObject kvs) =
     JObject (map (\<lambda>kv. (fst kv, resolveVariablesJson lib p (snd kv))) kvs)"
| "resolveVariablesJson lib p v = v"

section \<open>Action parsing (Parser::parseAction)\<close>

definition parseMode :: "string \<Rightarrow> ExecutionMode" where
  "parseMode modeStr =
     (if modeStr = ''sync'' then SYNC
      else if modeStr = ''async'' then ASYNC
      else if modeStr = ''fire_and_forget'' then FIRE_AND_FORGET
      else ASYNC)"

definition parseType :: "string \<Rightarrow> ActionType" where
  "parseType typeStr =
     (if typeStr = ''tool'' then TOOL
      else if typeStr = ''agent'' then AGENT
      else if typeStr = ''relic'' then RELIC
      else if typeStr = ''workflow'' then WORKFLOW
      else if typeStr = ''llm'' then LLM
      else if typeStr = ''internal'' then INTERNAL
      else TOOL)"

text \<open>\<open>if (root.isMember(key)) field = conv(root[key])\<close>, for one field.\<close>

definition readField ::
  "string \<Rightarrow> json \<Rightarrow> (json \<Rightarrow> string + 'a) \<Rightarrow> (ParsedAction \<Rightarrow> 'a \<Rightarrow> ParsedAction) \<Rightarrow> ParsedAction
     \<Rightarrow> string + ParsedAction" where
  "readField key root conv upd action =
     bindE (isMember key root) (\<lambda>present.
       if present then bindE (conv (member key root)) (\<lambda>x. Inr (upd action x))
       else Inr action)"

definition readDependsOn :: "json \<Rightarrow> ParsedAction \<Rightarrow> string + ParsedAction" where
  "readDependsOn root action =
     bindE (isMember ''depends_on'' root) (\<lambda>present.
       if present then
         (case member ''depends_on'' root of
            JArray deps \<Rightarrow>
              Inr (action\<lparr>dependsOn := dependsOn action
                     @ concat (map (\<lambda>dep. case dep of JString s \<Rightarrow> [s] | _ \<Rightarrow> []) deps)\<rparr>)
          | _ \<Rightarrow> Inr action)
       else Inr action)"

definition attrsOf :: "string strmap \<Rightarrow> ParsedAction" where
  "attrsOf attrs =
     (let a0 = new_ParsedAction;
          a1 = (case map_of attrs ''id'' of Some v \<Rightarrow> a0\<lparr>action_id := v\<rparr> | None \<Rightarrow> a0);
          a2 = (case map_of attrs ''type'' of Some v \<Rightarrow> a1\<lparr>action_type := parseType v\<rparr> | None \<Rightarrow> a1)
      in (case map_of attrs ''mode'' of Some v \<Rightarrow> a2\<lparr>action_mode := parseMode v\<rparr> | None \<Rightarrow> a2))"

definition parseAction ::
  "JsonLib \<Rightarrow> Parser \<Rightarrow> string \<Rightarrow> string strmap \<Rightarrow> string + ParsedAction" where
  "parseAction lib p jsonStr attrs =
     (case parseFromStream lib (cleanJSON jsonStr) of
        Inl errs \<Rightarrow> Inl (''Failed to parse action JSON: '' @ errs)
      | Inr root \<Rightarrow>
          bindE (readField ''name'' root (asString lib) (\<lambda>a x. a\<lparr>action_name := x\<rparr>) (attrsOf attrs)) (\<lambda>a1.
          bindE (readField ''parameters'' root Inr (\<lambda>a x. a\<lparr>parameters := x\<rparr>) a1) (\<lambda>a2.
          bindE (readField ''output_key'' root (asString lib) (\<lambda>a x. a\<lparr>outputKey := x\<rparr>) a2) (\<lambda>a3.
          bindE (readDependsOn root a3) (\<lambda>a4.
          bindE (readField ''timeout'' root (asInt lib) (\<lambda>a x. a\<lparr>timeout := x\<rparr>) a4) (\<lambda>a5.
          bindE (readField ''retry_count'' root (asInt lib) (\<lambda>a x. a\<lparr>retryCount := x\<rparr>) a5) (\<lambda>a6.
          bindE (readField ''skip_on_error'' root (asBool lib) (\<lambda>a x. a\<lparr>skipOnError := x\<rparr>) a6) (\<lambda>a7.
          Inr (a7\<lparr>parameters := resolveVariablesJson lib p (parameters a7)\<rparr>)))))))))"

section \<open>The scheduler (canExecuteAction, executeInternalAction, executeAction)\<close>

definition canExecuteAction :: "ParsedAction \<Rightarrow> Parser \<Rightarrow> bool" where
  "canExecuteAction action p =
     list_all (\<lambda>depId. map_of (actionCompleted p) depId = Some True) (dependsOn action)"

text \<open>
  \<open>executeInternalAction\<close> returns its \<open>bool\<close> and the new parser, or throws what a
  conversion of the library throws; it has changed nothing when it throws.
\<close>

definition optField ::
  "string \<Rightarrow> json \<Rightarrow> (json \<Rightarrow> string + 'a) \<Rightarrow> (ContextFeed \<Rightarrow> 'a \<Rightarrow> ContextFeed) \<Rightarrow> ContextFeed
     \<Rightarrow> string + ContextFeed" where
  "optField key params conv upd feed =
     bindE (isMember key params) (\<lambda>present.
       if present then bindE (conv (member key params)) (\<lambda>x. Inr (upd feed x))
       else Inr feed)"

definition executeInternalAction ::
  "JsonLib \<Rightarrow> ParsedAction \<Rightarrow> Parser \<Rightarrow> string + (bool \<times> Parser)" where
  "executeInternalAction lib action p =
     (let params = parameters action in
      if action_name action = ''add_context_feed'' then
        bindE (isMember ''id'' params) (\<lambda>hasId.
          if \<not> hasId then Inr (False, p)
          else
            bindE (asString lib (member ''id'' params)) (\<lambda>fid.
            bindE (optField ''type'' params (asString lib) (\<lambda>f x. f\<lparr>feed_type := x\<rparr>)
                     (new_ContextFeed\<lparr>feed_id := fid\<rparr>)) (\<lambda>f1.
            bindE (optField ''source'' params Inr (\<lambda>f x. f\<lparr>feed_source := x\<rparr>) f1) (\<lambda>f2.
            bindE (optField ''cache_ttl'' params (asInt lib) (\<lambda>f x. f\<lparr>cacheTtl := x\<rparr>) f2) (\<lambda>f3.
            bindE (optField ''max_tokens'' params (asInt lib) (\<lambda>f x. f\<lparr>maxTokens := x\<rparr>) f3) (\<lambda>f4.
            Inr (True, addContextFeed f4 p)))))))
      else if action_name action = ''remove_context_feed'' then
        bindE (isMember ''id'' params) (\<lambda>hasId.
          if \<not> hasId then Inr (False, p)
          else
            bindE (asString lib (member ''id'' params)) (\<lambda>feedId.
            Inr (True, p\<lparr>contextFeeds := map_erase feedId (contextFeeds p)\<rparr>)))
      else if action_name action = ''set_variable'' then
        bindE (isMember ''key'' params) (\<lambda>hasKey.
        bindE (if hasKey then isMember ''value'' params else Inr False) (\<lambda>hasBoth.
          if \<not> hasBoth then Inr (False, p)
          else
            bindE (asString lib (member ''key'' params)) (\<lambda>key.
            Inr (True, p\<lparr>actionResults := map_set key (member ''value'' params) (actionResults p)\<rparr>))))
      else if action_name action = ''delete_variable'' then
        bindE (isMember ''key'' params) (\<lambda>hasKey.
          if \<not> hasKey then Inr (False, p)
          else
            bindE (asString lib (member ''key'' params)) (\<lambda>key.
            Inr (True, p\<lparr>actionResults := map_erase key (actionResults p)\<rparr>)))
      else if action_name action = ''clear_context'' then
        Inr (True, p\<lparr>actionResults := []\<rparr>)
      else Inr (False, p))"

text \<open>
  How a call ends: it returns, or a C++ exception leaves it (with the parser as it is at
  the throw), or the behaviour is undefined.
\<close>

datatype outcome = Done Parser | Thrown string Parser | Undefined

definition internalComplete :: "ParsedAction \<Rightarrow> bool \<Rightarrow> TokenEvent" where
  "internalComplete action success =
     (new_TokenEvent ACTION_COMPLETE)
       \<lparr> ev_action := Some action,
         ev_metadata := map_set ''success'' (if success then ''true'' else ''false'')
                          (map_set ''type'' ''internal''
                            (map_set ''action_id'' (action_id action) [])) \<rparr>"

definition executorComplete :: "ParsedAction \<Rightarrow> TokenEvent" where
  "executorComplete action =
     (new_TokenEvent ACTION_COMPLETE)
       \<lparr> ev_action := Some action,
         ev_metadata := map_set ''success'' ''true''
                          (map_set ''output_key'' (outputKey action)
                            (map_set ''action_id'' (action_id action) [])) \<rparr>"

definition executionError :: "ParsedAction \<Rightarrow> string \<Rightarrow> TokenEvent" where
  "executionError action what =
     (new_TokenEvent ERROR)
       \<lparr> ev_content := ''Action failed: '' @ what,
         ev_metadata := map_set ''skip_on_error'' (if skipOnError action then ''true'' else ''false'')
                          (map_set ''action_id'' (action_id action) []) \<rparr>"

text \<open>The statements of the \<open>try\<close> block after the executor has returned \<open>result\<close>.\<close>

definition storeResult :: "ParsedAction \<Rightarrow> json \<Rightarrow> Parser \<Rightarrow> Parser" where
  "storeResult action result p =
     (let r1 = (if outputKey action \<noteq> [] then map_set (outputKey action) result (actionResults p)
                else actionResults p)
      in emitToken (executorComplete action)
           (p\<lparr> actionResults := map_set (action_id action) result r1,
               actionCompleted := map_set (action_id action) True (actionCompleted p) \<rparr>))"

text \<open>The \<open>catch (const std::exception&)\<close> clause of \<open>executeAction\<close>.\<close>

definition catchClause :: "ParsedAction \<Rightarrow> outcome \<Rightarrow> outcome" where
  "catchClause action r =
     (case r of
        Thrown what p \<Rightarrow>
          Done (emitToken (executionError action what)
                  (p\<lparr>actionCompleted :=
                       map_set (action_id action) (\<not> skipOnError action) (actionCompleted p)\<rparr>))
      | _ \<Rightarrow> r)"

definition erasePending :: "nat \<Rightarrow> Parser \<Rightarrow> Parser" where
  "erasePending i p = p\<lparr>pendingActions := take i (pendingActions p) @ drop (Suc i) (pendingActions p)\<rparr>"

definition logDispatch :: "ParsedAction \<Rightarrow> Parser \<Rightarrow> Parser" where
  "logDispatch action p = p\<lparr>dispatched := dispatched p @ [(action, actionCompleted p)]\<rparr>"

text \<open>
  \<open>executeAction\<close>, and its loop over \<open>pendingActions\<close> as \<open>scanPending\<close>. The vector
  iterator \<open>it\<close> is the index \<open>i\<close>. The recursive call may erase further elements, so on
  return the index can lie beyond the end of the vector; \<open>it != end()\<close> then still holds
  and the loop reads past the end, which is undefined behaviour.
\<close>

definition pending_le :: "outcome \<Rightarrow> nat \<Rightarrow> bool" where
  "pending_le r n =
     (case r of
        Done p \<Rightarrow> length (pendingActions p) \<le> n
      | Thrown what p \<Rightarrow> length (pendingActions p) \<le> n
      | Undefined \<Rightarrow> True)"

function executeAction :: "JsonLib \<Rightarrow> ParsedAction \<Rightarrow> Parser \<Rightarrow> outcome"
  and scanPending :: "JsonLib \<Rightarrow> nat \<Rightarrow> Parser \<Rightarrow> outcome" where
  "executeAction lib action p =
     (case actionExecutor p of
        None \<Rightarrow> Done (p\<lparr>actionCompleted := map_set (action_id action) False (actionCompleted p)\<rparr>)
      | Some executor \<Rightarrow>
          if action_type action = INTERNAL then
            (case executeInternalAction lib action p of
               Inl what \<Rightarrow> Thrown what p
             | Inr (success, p1) \<Rightarrow>
                 Done (emitToken (internalComplete action success)
                         (p1\<lparr>actionCompleted := map_set (action_id action) True (actionCompleted p1)\<rparr>)))
          else
            catchClause action
              (case executor (map fst (dispatched p)) action of
                 Inl what \<Rightarrow> Thrown what (logDispatch action p)
               | Inr result \<Rightarrow> scanPending lib 0 (storeResult action result (logDispatch action p))))"
| "scanPending lib i p =
     (if i = length (pendingActions p) then Done p
      else if length (pendingActions p) < i then Undefined
      else if canExecuteAction (pendingActions p ! i) p then
        (case executeAction lib (pendingActions p ! i) (erasePending i p) of
           Done p' \<Rightarrow> scanPending lib i p'
         | Thrown what p' \<Rightarrow> Thrown what p'
         | Undefined \<Rightarrow> Undefined)
      else scanPending lib (Suc i) p)"
  by pat_completeness auto

lemma pendingActions_emitToken [simp]: "pendingActions (emitToken ev p) = pendingActions p"
  by (simp add: emitToken_def)

lemma pendingActions_storeResult [simp]:
  "pendingActions (storeResult action result p) = pendingActions p"
  by (simp add: storeResult_def Let_def)

lemma pendingActions_logDispatch [simp]: "pendingActions (logDispatch action p) = pendingActions p"
  by (simp add: logDispatch_def)

lemma pendingActions_executeInternalAction:
  "executeInternalAction lib action p = Inr (ok, p') \<Longrightarrow> pendingActions p' = pendingActions p"
  by (auto simp: executeInternalAction_def Let_def bindE_def optField_def addContextFeed_def
           split: if_splits sum.splits)

lemma pending_le_catchClause [simp]: "pending_le (catchClause action r) n = pending_le r n"
  by (cases r) (simp_all add: catchClause_def pending_le_def)

lemma pending_le_mono: "pending_le r m \<Longrightarrow> m \<le> n \<Longrightarrow> pending_le r n"
  by (cases r) (simp_all add: pending_le_def)

lemma length_erasePending:
  "i < length (pendingActions p) \<Longrightarrow>
     length (pendingActions (erasePending i p)) < length (pendingActions p)"
  by (simp add: erasePending_def)

lemma executeAction_scanPending_pending_le:
  "executeAction_scanPending_dom (Inl (lib, action, p)) \<Longrightarrow>
     pending_le (executeAction lib action p) (length (pendingActions p))"
  "executeAction_scanPending_dom (Inr (lib, i, p)) \<Longrightarrow>
     pending_le (scanPending lib i p) (length (pendingActions p))"
proof (induction rule: executeAction_scanPending.pinduct)
  case (1 lib action p)
  show ?case
  proof (cases "actionExecutor p")
    case None
    then show ?thesis
      using "1.hyps" by (simp add: executeAction.psimps pending_le_def)
  next
    case (Some executor)
    show ?thesis
    proof (cases "action_type action = INTERNAL")
      case True
      then show ?thesis
        using "1.hyps" Some
        by (auto simp: executeAction.psimps pending_le_def
                 dest: pendingActions_executeInternalAction split: sum.splits)
    next
      case False
      show ?thesis
      proof (cases "executor (map fst (dispatched p)) action")
        case (Inl what)
        have "pending_le (Thrown what (logDispatch action p)) (length (pendingActions p))"
          by (simp add: pending_le_def)
        then show ?thesis
          using "1.hyps" Some False Inl by (simp add: executeAction.psimps)
      next
        case (Inr result)
        then show ?thesis
          using "1.hyps" Some False "1.IH" [OF Some False Inr]
          by (simp add: executeAction.psimps)
      qed
    qed
  qed
next
  case (2 lib i p)
  show ?case
  proof (cases "i < length (pendingActions p)")
    case False
    then show ?thesis
      using "2.hyps" by (auto simp: scanPending.psimps pending_le_def)
  next
    case inb: True
    show ?thesis
    proof (cases "canExecuteAction (pendingActions p ! i) p")
      case False
      then show ?thesis
        using "2.hyps" inb "2.IH"(3) by (simp add: scanPending.psimps)
    next
      case True
      have ne: "i \<noteq> length (pendingActions p)" and nl: "\<not> length (pendingActions p) < i"
        using inb by simp_all
      have le1: "pending_le (executeAction lib (pendingActions p ! i) (erasePending i p))
                   (length (pendingActions (erasePending i p)))"
        using "2.IH"(1) [OF ne nl True] .
      show ?thesis
      proof (cases "executeAction lib (pendingActions p ! i) (erasePending i p)")
        case (Done p')
        have "length (pendingActions p') \<le> length (pendingActions p)"
          using le1 Done length_erasePending [OF inb] by (simp add: pending_le_def)
        moreover have "pending_le (scanPending lib i p') (length (pendingActions p'))"
          using "2.IH"(2) [OF ne nl True Done] .
        ultimately show ?thesis
          using "2.hyps" inb True Done
          by (simp add: scanPending.psimps pending_le_mono)
      next
        case (Thrown what p')
        then show ?thesis
          using "2.hyps" inb True le1 length_erasePending [OF inb]
          by (simp add: scanPending.psimps pending_le_def)
      next
        case Undefined
        then show ?thesis
          using "2.hyps" inb True by (simp add: scanPending.psimps pending_le_def)
      qed
    qed
  qed
qed

termination executeAction
proof (relation "measures [\<lambda>x. case x of Inl (lib, a, p) \<Rightarrow> length (pendingActions p)
                                      | Inr (lib, i, p) \<Rightarrow> length (pendingActions p),
                          \<lambda>x. case x of Inl (lib, a, p) \<Rightarrow> 1 | Inr (lib, i, p) \<Rightarrow> 0,
                          \<lambda>x. case x of Inl (lib, a, p) \<Rightarrow> 0
                                      | Inr (lib, i, p) \<Rightarrow> length (pendingActions p) - i]",
       goal_cases)
  case 1
  show ?case by simp
next
  case (2 lib action p executor result)
  show ?case by simp
next
  case (3 lib i p)
  then show ?case by (simp add: erasePending_def)
next
  case (4 lib i p p')
  then have "pending_le (executeAction lib (pendingActions p ! i) (erasePending i p))
               (length (pendingActions (erasePending i p)))"
    using executeAction_scanPending_pending_le(1) by blast
  with 4 have "length (pendingActions p') < length (pendingActions p)"
    using length_erasePending [of i p] by (simp add: pending_le_def)
  then show ?case by simp
next
  case (5 lib i p)
  then show ?case by auto
qed

declare executeAction.simps [simp del] scanPending.simps [simp del]

section \<open>The handlers of the state machine\<close>

definition thoughtEvent :: "Parser \<Rightarrow> TokenEvent" where
  "thoughtEvent p =
     (new_TokenEvent THOUGHT)\<lparr>ev_content := drop (lastEmittedThoughtPos p) (currentThought p)\<rparr>"

definition handleThought :: "Parser \<Rightarrow> Parser" where
  "handleThought p =
     (let p1 = (if tokenCallback p \<and> lastEmittedThoughtPos p < length (currentThought p)
                then emitToken (thoughtEvent p) p else p)
      in p1\<lparr>currentThought := [], lastEmittedThoughtPos := 0\<rparr>)"

definition responseIsFinal :: "string strmap \<Rightarrow> bool" where
  "responseIsFinal attrs =
     (case map_of attrs ''final'' of
        Some finalAttr \<Rightarrow> finalAttr \<noteq> ''false'' \<and> finalAttr \<noteq> ''0''
      | None \<Rightarrow> True)"

definition responseEvent :: "string \<Rightarrow> bool \<Rightarrow> TokenEvent" where
  "responseEvent content isFinal =
     (new_TokenEvent RESPONSE)
       \<lparr> ev_content := content,
         ev_metadata := map_set ''is_final'' (if isFinal then ''true'' else ''false'') [] \<rparr>"

definition handleResponse :: "JsonLib \<Rightarrow> Parser \<Rightarrow> Parser" where
  "handleResponse lib p =
     (let resolvedContent = resolveVariables lib p (currentResponse p);
          isFinal = responseIsFinal (currentAttributes p);
          p1 = (if tokenCallback p \<and> resolvedContent \<noteq> []
                then emitToken (responseEvent resolvedContent isFinal) p else p)
      in p1\<lparr>currentResponse := [], currentAttributes := []\<rparr>)"

definition feedEvent :: "string \<Rightarrow> string \<Rightarrow> TokenEvent" where
  "feedEvent feedId content =
     (new_TokenEvent CONTEXT_FEED)
       \<lparr> ev_content := content, ev_metadata := map_set ''feed_id'' feedId [] \<rparr>"

definition handleContextFeed :: "Parser \<Rightarrow> Parser" where
  "handleContextFeed p =
     (let feedId = (case map_of (currentAttributes p) ''id'' of Some v \<Rightarrow> v | None \<Rightarrow> []);
          p1 = (if feedId \<noteq> [] then
                  emitToken (feedEvent feedId (currentContextFeed p))
                    (addContextFeed
                       (new_ContextFeed\<lparr>feed_id := feedId, feed_content := currentContextFeed p\<rparr>) p)
                else p)
      in p1\<lparr>currentContextFeed := [], currentAttributes := []\<rparr>)"

definition actionStart :: "ParsedAction \<Rightarrow> TokenEvent" where
  "actionStart action =
     (new_TokenEvent ACTION_START)
       \<lparr> ev_action := Some action,
         ev_metadata := map_set ''action_name'' (action_name action)
                          (map_set ''action_id'' (action_id action) []) \<rparr>"

definition parseError :: "string \<Rightarrow> TokenEvent" where
  "parseError what = (new_TokenEvent ERROR)\<lparr>ev_content := ''Action parse error: '' @ what\<rparr>"

text \<open>
  \<open>handleAction\<close>: the body of the \<open>try\<close> (\<open>submitAction\<close>), its \<open>catch\<close>, and the two
  \<open>clear()\<close>. \<open>None\<close> is undefined behaviour inside \<open>executeAction\<close>.
\<close>

definition submitAction :: "JsonLib \<Rightarrow> Parser \<Rightarrow> outcome" where
  "submitAction lib p =
     (case parseAction lib p (currentAction p) (currentAttributes p) of
        Inl what \<Rightarrow> Thrown what p
      | Inr parsed \<Rightarrow>
          (let action = parsed\<lparr>embeddedInThought := (currentThought p \<noteq> [])\<rparr>;
               p1 = emitToken (actionStart action) p
           in if canExecuteAction action p1 then executeAction lib action p1
              else Done (p1\<lparr>pendingActions := pendingActions p1 @ [action]\<rparr>)))"

definition handleAction :: "JsonLib \<Rightarrow> Parser \<Rightarrow> Parser option" where
  "handleAction lib p =
     (case submitAction lib p of
        Done p1 \<Rightarrow> Some (p1\<lparr>currentAction := [], currentAttributes := []\<rparr>)
      | Thrown what p1 \<Rightarrow>
          Some ((emitToken (parseError what) p1)\<lparr>currentAction := [], currentAttributes := []\<rparr>)
      | Undefined \<Rightarrow> None)"

section \<open>Tag detection and fence stripping\<close>

definition detectTagStart :: "string \<Rightarrow> Parser \<Rightarrow> Parser option" where
  "detectTagStart tagName p =
     (let openTag = CHR ''<'' # tagName in
      case find_str openTag (buffer p) of
        None \<Rightarrow> None
      | Some pos \<Rightarrow>
          (case find_from ''>'' (buffer p) pos of
             None \<Rightarrow> None
           | Some endPos \<Rightarrow>
               (let attrStart = pos + length openTag;
                    attrs = (if attrStart < endPos
                             then parseAttributes (take (endPos - attrStart) (drop attrStart (buffer p)))
                             else [])
                in Some (p\<lparr>currentAttributes := attrs, buffer := drop (Suc endPos) (buffer p)\<rparr>))))"

definition detectTagEnd :: "string \<Rightarrow> Parser \<Rightarrow> Parser option" where
  "detectTagEnd tagName p =
     (let closeTag = ''</'' @ tagName @ ''>'' in
      case find_str closeTag (buffer p) of
        None \<Rightarrow> None
      | Some pos \<Rightarrow> Some (p\<lparr>buffer := drop (pos + length closeTag) (buffer p)\<rparr>))"

definition fence :: string where
  "fence = [CHR 0x60, CHR 0x60, CHR 0x60]"

lemma find_str_bound: "find_str pat s = Some i \<Longrightarrow> i + length pat \<le> length s"
proof (induction s arbitrary: i)
  case Nil
  then show ?case by (simp split: if_splits)
next
  case (Cons c cs)
  have sw: "\<And>q t. starts_with q t \<Longrightarrow> length q \<le> length t"
  proof -
    fix q t show "starts_with q t \<Longrightarrow> length q \<le> length t"
      by (induction q arbitrary: t) (auto split: list.splits)
  qed
  show ?case
  proof (cases "starts_with pat (c # cs)")
    case True
    then show ?thesis using Cons.prems sw [of pat "c # cs"] by simp
  next
    case False
    then show ?thesis using Cons by auto
  qed
qed

lemma find_from_bound: "find_from pat s pos = Some i \<Longrightarrow> pos \<le> i \<and> i + length pat \<le> length s"
  by (auto simp: find_from_def split: if_splits dest!: find_str_bound)

text \<open>The first loop of \<open>processBuffer\<close>, on the buffer and the search position \<open>pos\<close>.\<close>

function stripFences :: "nat \<Rightarrow> string \<Rightarrow> string" where
  "stripFences pos buf =
     (case find_from fence buf pos of
        None \<Rightarrow> buf
      | Some q \<Rightarrow>
          if q = 0 \<or> buf ! (q - 1) = newline then
            (case find_from [newline] buf q of
               Some lineEnd \<Rightarrow> stripFences q (take q buf @ drop (Suc lineEnd) buf)
             | None \<Rightarrow>
                 if q + 3 < length buf then stripFences q (take q buf @ drop (q + 3) buf)
                 else buf)
          else stripFences (Suc q) buf)"
  by pat_completeness auto
termination
proof (relation "measures [\<lambda>(pos, buf). length buf, \<lambda>(pos, buf). length buf - pos]", goal_cases)
  case 1
  show ?case by simp
next
  case 2
  then show ?case
    by (auto dest!: find_from_bound simp: fence_def)
next
  case 3
  then show ?case
    by (auto dest!: find_from_bound simp: fence_def)
next
  case 4
  then show ?case
    by (auto dest!: find_from_bound simp: fence_def)
qed

declare stripFences.simps [simp del]

section \<open>The main loop (Parser::processBuffer) and Parser::parseToken\<close>

text \<open>
  One pass of the \<open>while (!buffer.empty())\<close> loop is a sequence of tests, each on the
  parser the one before has left, with the flag \<open>processed\<close>.
\<close>

definition openThought :: "Parser \<times> bool \<Rightarrow> Parser \<times> bool" where
  "openThought pb =
     (let p = fst pb in
      if state p = IDLE \<or> state p = IN_THOUGHT then
        (case detectTagStart ''thought'' p of
           Some q \<Rightarrow> (q\<lparr>state := IN_THOUGHT\<rparr>, True)
         | None \<Rightarrow> pb)
      else pb)"

definition openAction :: "Parser \<times> bool \<Rightarrow> Parser \<times> bool" where
  "openAction pb =
     (case detectTagStart ''action'' (fst pb) of
        Some q \<Rightarrow> ((if state q = IN_THOUGHT then handleThought q else q)\<lparr>state := IN_ACTION\<rparr>, True)
      | None \<Rightarrow> pb)"

definition openResponse :: "Parser \<times> bool \<Rightarrow> Parser \<times> bool" where
  "openResponse pb =
     (case detectTagStart ''response'' (fst pb) of
        Some q \<Rightarrow> ((if state q = IN_THOUGHT then handleThought q else q)\<lparr>state := IN_RESPONSE\<rparr>, True)
      | None \<Rightarrow> pb)"

definition openContextFeed :: "Parser \<times> bool \<Rightarrow> Parser \<times> bool" where
  "openContextFeed pb =
     (case detectTagStart ''context_feed'' (fst pb) of
        Some q \<Rightarrow> (q\<lparr>state := IN_CONTEXT_FEED\<rparr>, True)
      | None \<Rightarrow> pb)"

definition closeThought :: "Parser \<times> bool \<Rightarrow> Parser \<times> bool" where
  "closeThought pb =
     (if state (fst pb) = IN_THOUGHT then
        (case detectTagEnd ''thought'' (fst pb) of
           Some q \<Rightarrow> ((handleThought q)\<lparr>state := IDLE\<rparr>, True)
         | None \<Rightarrow> pb)
      else pb)"

definition closeAction :: "JsonLib \<Rightarrow> Parser \<times> bool \<Rightarrow> (Parser \<times> bool) option" where
  "closeAction lib pb =
     (if state (fst pb) = IN_ACTION then
        (case detectTagEnd ''action'' (fst pb) of
           Some q \<Rightarrow>
             (case handleAction lib q of
                Some q' \<Rightarrow>
                  Some (q'\<lparr>state := (if currentThought q' = [] then IDLE else IN_THOUGHT)\<rparr>, True)
              | None \<Rightarrow> None)
         | None \<Rightarrow> Some pb)
      else Some pb)"

definition closeResponse :: "JsonLib \<Rightarrow> Parser \<times> bool \<Rightarrow> Parser \<times> bool" where
  "closeResponse lib pb =
     (if state (fst pb) = IN_RESPONSE then
        (case detectTagEnd ''response'' (fst pb) of
           Some q \<Rightarrow> ((handleResponse lib q)\<lparr>state := IDLE\<rparr>, True)
         | None \<Rightarrow> pb)
      else pb)"

definition closeContextFeed :: "Parser \<times> bool \<Rightarrow> Parser \<times> bool" where
  "closeContextFeed pb =
     (if state (fst pb) = IN_CONTEXT_FEED then
        (case detectTagEnd ''context_feed'' (fst pb) of
           Some q \<Rightarrow> ((handleContextFeed q)\<lparr>state := IDLE\<rparr>, True)
         | None \<Rightarrow> pb)
      else pb)"

text \<open>\<open>a - b\<close> on \<open>size_t\<close> (64 bits): it wraps around when \<open>b\<close> exceeds \<open>a\<close>.\<close>

definition size_t_sub :: "nat \<Rightarrow> nat \<Rightarrow> nat" where
  "size_t_sub a b = (if b \<le> a then a - b else 2 ^ 64 - (b - a))"

text \<open>The branch \<open>if (!processed)\<close>: one character moves from the buffer to an accumulator.\<close>

definition accumulate :: "Parser \<Rightarrow> Parser" where
  "accumulate p =
     (case buffer p of
        [] \<Rightarrow> p
      | c # rest \<Rightarrow>
          (let p1 = p\<lparr>buffer := rest\<rparr> in
           case state p1 of
             IN_THOUGHT \<Rightarrow>
               (let p2 = p1\<lparr>currentThought := currentThought p1 @ [c]\<rparr> in
                if (10 \<le> size_t_sub (length (currentThought p2)) (lastEmittedThoughtPos p2)
                      \<or> buffer p2 = [] \<or> c = newline)
                   \<and> tokenCallback p2 \<and> lastEmittedThoughtPos p2 < length (currentThought p2)
                then emitToken (thoughtEvent p2) (p2\<lparr>lastEmittedThoughtPos := length (currentThought p2)\<rparr>)
                else p2)
           | IN_ACTION \<Rightarrow> p1\<lparr>currentAction := currentAction p1 @ [c]\<rparr>
           | IN_RESPONSE \<Rightarrow> p1\<lparr>currentResponse := currentResponse p1 @ [c]\<rparr>
           | IN_CONTEXT_FEED \<Rightarrow> p1\<lparr>currentContextFeed := currentContextFeed p1 @ [c]\<rparr>
           | IDLE \<Rightarrow> p1))"

definition processStep :: "JsonLib \<Rightarrow> Parser \<Rightarrow> Parser option" where
  "processStep lib p =
     (case closeAction lib
             (closeThought (openContextFeed (openResponse (openAction (openThought (p, False)))))) of
        None \<Rightarrow> None
      | Some pb \<Rightarrow>
          (let pb' = closeContextFeed (closeResponse lib pb)
           in Some (if snd pb' then fst pb' else accumulate (fst pb'))))"

text \<open>None of the scheduler's work touches the buffer, so every pass shortens it.\<close>

definition outcome_all :: "(Parser \<Rightarrow> bool) \<Rightarrow> outcome \<Rightarrow> bool" where
  "outcome_all P r = (case r of Done p \<Rightarrow> P p | Thrown what p \<Rightarrow> P p | Undefined \<Rightarrow> True)"

lemma outcome_all_simps [simp]:
  "outcome_all P (Done p) = P p"
  "outcome_all P (Thrown what p) = P p"
  "outcome_all P Undefined = True"
  by (simp_all add: outcome_all_def)

lemma outcome_all_catchClause:
  assumes "outcome_all P r"
    and "\<And>what p. P p \<Longrightarrow>
           P (emitToken (executionError action what)
                (p\<lparr>actionCompleted :=
                     map_set (action_id action) (\<not> skipOnError action) (actionCompleted p)\<rparr>))"
  shows "outcome_all P (catchClause action r)"
  using assms by (cases r) (simp_all add: catchClause_def)

lemma executeInternalAction_frame:
  assumes "executeInternalAction lib action p = Inr (ok, p')"
    and "\<And>f q. g (contextFeeds_update f q) = g q"
    and "\<And>f q. g (actionResults_update f q) = g q"
  shows "g p' = g p"
  using assms
  by (auto simp: executeInternalAction_def Let_def bindE_def optField_def addContextFeed_def
           split: if_splits sum.splits)

lemma executeAction_scanPending_frame:
  fixes g :: "Parser \<Rightarrow> 'a"
  assumes e: "\<And>f q. g (emitted_update f q) = g q"
    and c: "\<And>f q. g (actionCompleted_update f q) = g q"
    and r: "\<And>f q. g (actionResults_update f q) = g q"
    and n: "\<And>f q. g (pendingActions_update f q) = g q"
    and d: "\<And>f q. g (dispatched_update f q) = g q"
    and x: "\<And>f q. g (contextFeeds_update f q) = g q"
  shows "outcome_all (\<lambda>p'. g p' = g p) (executeAction lib action p)"
    and "outcome_all (\<lambda>p'. g p' = g p) (scanPending lib i p)"
proof (induction lib action p and lib i p rule: executeAction_scanPending.induct)
  case (1 lib action p)
  have em: "\<And>ev q. g (emitToken ev q) = g q"
    by (simp add: emitToken_def e)
  show ?case
  proof (cases "actionExecutor p")
    case None
    then show ?thesis by (simp add: executeAction.simps c)
  next
    case (Some executor)
    show ?thesis
    proof (cases "action_type action = INTERNAL")
      case True
      show ?thesis
      proof (cases "executeInternalAction lib action p")
        case (Inl what)
        then show ?thesis using Some True by (simp add: executeAction.simps)
      next
        case (Inr okp)
        obtain ok p1 where okp: "okp = (ok, p1)" by (cases okp)
        have "g p1 = g p"
          using executeInternalAction_frame [OF Inr [unfolded okp] x r] .
        then show ?thesis
          using Some True Inr okp by (simp add: executeAction.simps em c)
      qed
    next
      case False
      have cc: "\<And>rr. outcome_all (\<lambda>p'. g p' = g p) rr \<Longrightarrow>
                  outcome_all (\<lambda>p'. g p' = g p) (catchClause action rr)"
        by (rule outcome_all_catchClause) (simp_all add: em c)
      show ?thesis
      proof (cases "executor (map fst (dispatched p)) action")
        case (Inl what)
        have "outcome_all (\<lambda>p'. g p' = g p) (Thrown what (logDispatch action p))"
          by (simp add: logDispatch_def d)
        from cc [OF this] show ?thesis
          using Some False Inl by (simp add: executeAction.simps)
      next
        case (Inr result)
        have st: "g (storeResult action result (logDispatch action p)) = g p"
          by (simp add: storeResult_def Let_def logDispatch_def em c r d)
        have "outcome_all (\<lambda>p'. g p' = g p)
                (scanPending lib 0 (storeResult action result (logDispatch action p)))"
          using "1.IH" [OF Some False Inr] st by simp
        from cc [OF this] show ?thesis
          using Some False Inr by (simp add: executeAction.simps)
      qed
    qed
  qed
next
  case (2 lib i p)
  show ?case
  proof (cases "i < length (pendingActions p) \<and> canExecuteAction (pendingActions p ! i) p")
    case False
    then show ?thesis
      using "2.IH"(3) by (auto simp: scanPending.simps [of lib i p])
  next
    case True
    then have ne: "i \<noteq> length (pendingActions p)" and nl: "\<not> length (pendingActions p) < i"
      and ce: "canExecuteAction (pendingActions p ! i) p"
      by simp_all
    have er: "g (erasePending i p) = g p"
      by (simp add: erasePending_def n)
    have h1: "outcome_all (\<lambda>p'. g p' = g p)
                (executeAction lib (pendingActions p ! i) (erasePending i p))"
      using "2.IH"(1) [OF ne nl ce] er by simp
    show ?thesis
    proof (cases "executeAction lib (pendingActions p ! i) (erasePending i p)")
      case (Done p')
      then have "g p' = g p" using h1 by simp
      then show ?thesis
        using "2.IH"(2) [OF ne nl ce Done] Done ne nl ce
        by (simp add: scanPending.simps [of lib i p])
    next
      case (Thrown what p')
      then show ?thesis
        using h1 ne nl ce by (simp add: scanPending.simps [of lib i p])
    next
      case Undefined
      then show ?thesis
        using ne nl ce by (simp add: scanPending.simps [of lib i p])
    qed
  qed
qed

lemma submitAction_frame:
  fixes g :: "Parser \<Rightarrow> 'a"
  assumes "\<And>f q. g (emitted_update f q) = g q"
    and "\<And>f q. g (actionCompleted_update f q) = g q"
    and "\<And>f q. g (actionResults_update f q) = g q"
    and "\<And>f q. g (pendingActions_update f q) = g q"
    and "\<And>f q. g (dispatched_update f q) = g q"
    and "\<And>f q. g (contextFeeds_update f q) = g q"
  shows "outcome_all (\<lambda>p'. g p' = g p) (submitAction lib p)"
proof (cases "parseAction lib p (currentAction p) (currentAttributes p)")
  case (Inl what)
  then show ?thesis by (simp add: submitAction_def)
next
  case (Inr parsed)
  define action where "action = parsed\<lparr>embeddedInThought := (currentThought p \<noteq> [])\<rparr>"
  define p1 where "p1 = emitToken (actionStart action) p"
  have g1: "g p1 = g p"
    by (simp add: p1_def emitToken_def assms(1))
  have "outcome_all (\<lambda>p'. g p' = g p1) (executeAction lib action p1)"
    by (rule executeAction_scanPending_frame(1) [OF assms])
  then show ?thesis
    using Inr g1 by (simp add: submitAction_def Let_def action_def [symmetric] p1_def [symmetric] assms(4))
qed

lemma handleAction_buffer: "handleAction lib p = Some q \<Longrightarrow> buffer q = buffer p"
proof -
  assume h: "handleAction lib p = Some q"
  have "outcome_all (\<lambda>p'. buffer p' = buffer p) (submitAction lib p)"
    by (rule submitAction_frame) simp_all
  with h show ?thesis
    by (cases "submitAction lib p") (auto simp: handleAction_def emitToken_def)
qed

lemma buffer_handleThought [simp]: "buffer (handleThought p) = buffer p"
  by (simp add: handleThought_def Let_def emitToken_def)

lemma buffer_handleResponse [simp]: "buffer (handleResponse lib p) = buffer p"
  by (simp add: handleResponse_def Let_def emitToken_def)

lemma buffer_handleContextFeed [simp]: "buffer (handleContextFeed p) = buffer p"
  by (simp add: handleContextFeed_def Let_def emitToken_def addContextFeed_def)

lemma detectTagStart_buffer:
  "detectTagStart tagName p = Some q \<Longrightarrow> length (buffer q) < length (buffer p)"
  by (auto simp: detectTagStart_def Let_def split: option.splits dest!: find_from_bound)

lemma detectTagEnd_buffer:
  "detectTagEnd tagName p = Some q \<Longrightarrow> length (buffer q) < length (buffer p)"
  by (auto simp: detectTagEnd_def Let_def split: option.splits dest!: find_str_bound)

text \<open>
  \<open>consumed n pb\<close>: the buffer of \<open>pb\<close> is no longer than \<open>n\<close>, and shorter once
  \<open>processed\<close> is set.
\<close>

definition consumed :: "nat \<Rightarrow> Parser \<times> bool \<Rightarrow> bool" where
  "consumed n pb = (length (buffer (fst pb)) \<le> n \<and> (snd pb \<longrightarrow> length (buffer (fst pb)) < n))"

lemma consumed_openThought: "consumed n pb \<Longrightarrow> consumed n (openThought pb)"
  by (auto simp: consumed_def openThought_def Let_def split: option.splits
           dest!: detectTagStart_buffer)

lemma consumed_openAction: "consumed n pb \<Longrightarrow> consumed n (openAction pb)"
  by (auto simp: consumed_def openAction_def split: option.splits dest!: detectTagStart_buffer)

lemma consumed_openResponse: "consumed n pb \<Longrightarrow> consumed n (openResponse pb)"
  by (auto simp: consumed_def openResponse_def split: option.splits dest!: detectTagStart_buffer)

lemma consumed_openContextFeed: "consumed n pb \<Longrightarrow> consumed n (openContextFeed pb)"
  by (auto simp: consumed_def openContextFeed_def split: option.splits
           dest!: detectTagStart_buffer)

lemma consumed_closeThought: "consumed n pb \<Longrightarrow> consumed n (closeThought pb)"
  by (auto simp: consumed_def closeThought_def split: option.splits dest!: detectTagEnd_buffer)

lemma consumed_closeAction:
  "consumed n pb \<Longrightarrow> closeAction lib pb = Some pb' \<Longrightarrow> consumed n pb'"
  by (auto simp: consumed_def closeAction_def split: option.splits if_splits
           dest!: detectTagEnd_buffer handleAction_buffer)

lemma consumed_closeResponse: "consumed n pb \<Longrightarrow> consumed n (closeResponse lib pb)"
  by (auto simp: consumed_def closeResponse_def split: option.splits dest!: detectTagEnd_buffer)

lemma consumed_closeContextFeed: "consumed n pb \<Longrightarrow> consumed n (closeContextFeed pb)"
  by (auto simp: consumed_def closeContextFeed_def split: option.splits
           dest!: detectTagEnd_buffer)

lemma buffer_accumulate:
  "buffer p \<noteq> [] \<Longrightarrow> length (buffer (accumulate p)) < length (buffer p)"
  by (cases "buffer p"; cases "state p")
     (simp_all add: accumulate_def Let_def emitToken_def)

lemma processStep_shorter:
  assumes "processStep lib p = Some q" and "buffer p \<noteq> []"
  shows "length (buffer q) < length (buffer p)"
proof -
  let ?n = "length (buffer p)"
  have c0: "consumed ?n (p, False)"
    by (simp add: consumed_def)
  from assms(1) obtain pb where
    pb: "closeAction lib
           (closeThought (openContextFeed (openResponse (openAction (openThought (p, False)))))) = Some pb"
    and q: "q = (if snd (closeContextFeed (closeResponse lib pb))
                 then fst (closeContextFeed (closeResponse lib pb))
                 else accumulate (fst (closeContextFeed (closeResponse lib pb))))"
    by (auto simp: processStep_def Let_def split: option.splits)
  have c1: "consumed ?n pb"
    using consumed_closeAction [OF _ pb] c0
    by (intro consumed_closeAction [OF _ pb] consumed_closeThought consumed_openContextFeed
          consumed_openResponse consumed_openAction consumed_openThought)
  define pb' where "pb' = closeContextFeed (closeResponse lib pb)"
  have c2: "consumed ?n pb'"
    unfolding pb'_def by (intro consumed_closeContextFeed consumed_closeResponse c1)
  show ?thesis
  proof (cases "snd pb'")
    case True
    then show ?thesis using c2 q by (simp add: pb'_def [symmetric] consumed_def)
  next
    case False
    show ?thesis
    proof (cases "buffer (fst pb') = []")
      case True
      then show ?thesis
        using False q assms(2) by (simp add: pb'_def [symmetric] accumulate_def)
    next
      case ne: False
      have "length (buffer (accumulate (fst pb'))) < length (buffer (fst pb'))"
        by (rule buffer_accumulate [OF ne])
      then show ?thesis
        using False q c2 by (simp add: pb'_def [symmetric] consumed_def)
    qed
  qed
qed

function processLoop :: "JsonLib \<Rightarrow> Parser \<Rightarrow> Parser option" where
  "processLoop lib p =
     (if buffer p = [] then Some p
      else case processStep lib p of
             None \<Rightarrow> None
           | Some p' \<Rightarrow> processLoop lib p')"
  by pat_completeness auto
termination
  by (relation "measure (\<lambda>(lib, p). length (buffer p))") (auto dest: processStep_shorter)

declare processLoop.simps [simp del]

definition processBuffer :: "JsonLib \<Rightarrow> Parser \<Rightarrow> Parser option" where
  "processBuffer lib p = processLoop lib (p\<lparr>buffer := stripFences 0 (buffer p)\<rparr>)"

definition fallbackEvent :: "string \<Rightarrow> TokenEvent" where
  "fallbackEvent content =
     (new_TokenEvent RESPONSE)
       \<lparr> ev_content := content,
         ev_metadata := map_set ''fallback'' ''true'' (map_set ''is_final'' ''true'' []) \<rparr>"

text \<open>The three flushes of \<open>parseToken\<close> when \<open>isFinal\<close> is set.\<close>

definition finalize :: "JsonLib \<Rightarrow> Parser \<Rightarrow> Parser" where
  "finalize lib p =
     (let p1 = (if state p = IN_THOUGHT \<and> currentThought p \<noteq> [] then handleThought p else p);
          p2 = (if state p1 = IN_RESPONSE \<and> currentResponse p1 \<noteq> [] then handleResponse lib p1 else p1)
      in if state p2 = IDLE \<and> buffer p2 \<noteq> []
         then (emitToken (fallbackEvent (buffer p2)) p2)\<lparr>buffer := []\<rparr>
         else p2)"

definition parseToken :: "JsonLib \<Rightarrow> string \<Rightarrow> bool \<Rightarrow> Parser \<Rightarrow> Parser option" where
  "parseToken lib token isFinal p =
     (case processBuffer lib (p\<lparr>buffer := buffer p @ token\<rparr>) of
        None \<Rightarrow> None
      | Some p1 \<Rightarrow> Some (if isFinal then finalize lib p1 else p1))"

text \<open>A token source delivers its chunks in order.\<close>

fun parseTokens :: "JsonLib \<Rightarrow> (string \<times> bool) list \<Rightarrow> Parser \<Rightarrow> Parser option" where
  "parseTokens lib [] p = Some p"
| "parseTokens lib (t # ts) p =
     (case parseToken lib (fst t) (snd t) p of
        None \<Rightarrow> None
      | Some p1 \<Rightarrow> parseTokens lib ts p1)"

section \<open>The agent loop (Agent::promptStreaming)\<close>

text \<open>The members of \<open>class Agent\<close> that \<open>promptStreaming\<close> reads or writes.\<close>

record Agent =
  conversationHistory :: "(string \<times> string) list"
  currentIteration :: int
  iterationLimit :: int
  streamingParser :: "Parser option"
  agentContextFeeds :: "ContextFeed strmap"

text \<open>
  The collaborators of the loop: the prompt builder (it reads the clock), the protocol
  guide appended to every prompt, the model client, whose \<open>generateStream\<close> hands a
  sequence of chunks to the callback and then returns or throws, the executor the agent
  builds for its parser, and the JSON library.
\<close>

record AgentEnv =
  buildFullPrompt :: "Agent \<Rightarrow> string"
  streamingGuide :: string
  generateStream :: "string \<Rightarrow> (string \<times> bool) list \<times> string option"
  agentExecutor :: ActionExecutor
  jsonLib :: JsonLib

datatype agent_outcome = Returned Agent | Raised string Agent | UndefinedBehaviour

definition MAX_HISTORY_CONTENT_LEN :: nat where
  "MAX_HISTORY_CONTENT_LEN = 100000"

definition addToHistory :: "string \<Rightarrow> string \<Rightarrow> Agent \<Rightarrow> Agent" where
  "addToHistory role content a =
     (let processedContent = take MAX_HISTORY_CONTENT_LEN content;
          truncated = (MAX_HISTORY_CONTENT_LEN < length content)
      in a\<lparr>conversationHistory := conversationHistory a
              @ [(role, if truncated then processedContent @ ''... (truncated)'' else processedContent)]\<rparr>)"

text \<open>The first block of \<open>promptStreaming\<close>: the parser is created on first use.\<close>

definition initParser :: "AgentEnv \<Rightarrow> bool \<Rightarrow> Agent \<Rightarrow> Parser" where
  "initParser env callback a =
     (case streamingParser a of
        Some p \<Rightarrow> p
      | None \<Rightarrow>
          foldl (\<lambda>p kv. addContextFeed (snd kv) p)
            ((new_Parser (Some (agentExecutor env)))\<lparr>tokenCallback := callback\<rparr>)
            (agentContextFeeds a))"

text \<open>What the wrapped callback records: a \<open>RESPONSE\<close> event whose \<open>is_final\<close> is \<open>true\<close>.\<close>

definition isFinalResponse :: "TokenEvent \<Rightarrow> bool" where
  "isFinalResponse event =
     (ev_type event = RESPONSE \<and> map_of (ev_metadata event) ''is_final'' = Some ''true'')"

definition iterationEnvelope :: "JsonLib \<Rightarrow> int \<Rightarrow> json strmap \<Rightarrow> string" where
  "iterationEnvelope lib k results =
     ''<iteration_'' @ to_string k @ ''>'' @ [newline]
     @ (if results \<noteq> [] then
          ''<action_results>'' @ [newline]
          @ concat (map (\<lambda>pair. ''<result key=\"'' @ fst pair @ ''\">'' @ writeString lib (snd pair)
                                  @ ''</result>'' @ [newline]) results)
          @ ''</action_results>'' @ [newline]
        else [])
     @ ''</iteration_'' @ to_string k @ ''>''"

text \<open>
  One turn of the model: the prompt is built, the parser is reset and given the wrapped
  callback, and the chunks of the client go through \<open>parseToken\<close>. The result is the
  parser after the stream and whether the client has thrown.
\<close>

definition streamTurn :: "AgentEnv \<Rightarrow> Parser \<Rightarrow> Agent \<Rightarrow> (Parser \<times> string option) option" where
  "streamTurn env p a =
     (let fullPrompt = buildFullPrompt env a @ streamingGuide env;
          chunks = generateStream env fullPrompt
      in case parseTokens (jsonLib env) (fst chunks) ((reset p)\<lparr>tokenCallback := True\<rparr>) of
           None \<Rightarrow> None
         | Some p1 \<Rightarrow> Some (p1, snd chunks))"

text \<open>The statements of the loop body after \<open>generateStream\<close> has returned.\<close>

definition afterTurn :: "AgentEnv \<Rightarrow> bool \<Rightarrow> bool \<Rightarrow> Parser \<Rightarrow> Agent \<Rightarrow> bool \<times> Agent" where
  "afterTurn env callback receivedFinalResponse p1 a =
     (let a1 = a\<lparr>currentIteration := currentIteration a + 1\<rparr>;
          a2 = (if receivedFinalResponse then a1
                else addToHistory ''assistant''
                       (iterationEnvelope (jsonLib env) (currentIteration a1 - 1) (actionResults p1)) a1);
          a3 = a2\<lparr>streamingParser := Some (p1\<lparr>tokenCallback := callback\<rparr>)\<rparr>
      in (\<not> receivedFinalResponse \<and> \<not> iterationLimit a3 \<le> currentIteration a3, a3))"

function promptLoop :: "AgentEnv \<Rightarrow> bool \<Rightarrow> bool \<Rightarrow> Agent \<Rightarrow> agent_outcome" where
  "promptLoop env callback shouldContinue a =
     (if shouldContinue \<and> currentIteration a < iterationLimit a then
        (case streamingParser a of
           None \<Rightarrow> UndefinedBehaviour
         | Some p \<Rightarrow>
             (case streamTurn env p a of
                None \<Rightarrow> UndefinedBehaviour
              | Some (p1, Some what) \<Rightarrow> Raised what (a\<lparr>streamingParser := Some p1\<rparr>)
              | Some (p1, None) \<Rightarrow>
                  promptLoop env callback
                    (fst (afterTurn env callback
                            (list_ex isFinalResponse (drop (length (emitted p)) (emitted p1))) p1 a))
                    (snd (afterTurn env callback
                            (list_ex isFinalResponse (drop (length (emitted p)) (emitted p1))) p1 a))))
      else Returned a)"
  by pat_completeness auto
termination
  by (relation "measure (\<lambda>(env, callback, shouldContinue, a).
                 nat (iterationLimit a - currentIteration a))")
     (auto simp: afterTurn_def Let_def addToHistory_def)

declare promptLoop.simps [simp del]

definition promptStreaming :: "AgentEnv \<Rightarrow> string \<Rightarrow> bool \<Rightarrow> Agent \<Rightarrow> agent_outcome" where
  "promptStreaming env userInput callback a =
     (let a1 = a\<lparr>streamingParser := Some (initParser env callback a)\<rparr>;
          a2 = (if userInput \<noteq> [] then addToHistory ''user'' userInput a1 else a1)
      in promptLoop env callback True (a2\<lparr>currentIteration := 0\<rparr>))"

section \<open>Reference definitions and inputs of the examples\<close>

text \<open>A parser just constructed, with a token callback registered.\<close>

definition listening :: "ActionExecutor option \<Rightarrow> Parser" where
  "listening executor = setTokenCallback (new_Parser executor)"

text \<open>
  A JSON library for the examples, after jsoncpp 1.x. It parses the action bodies the
  examples use and refuses every other text. \<open>isDouble()\<close> is true for an integral value
  as it is for a real one, so an integer is printed by \<open>std::to_string\<close> of a \<open>double\<close>:
  its decimal digits followed by six zero decimals (the conversion to \<open>double\<close> is exact
  up to \<open>2^53\<close>). The writer is the compact one (\<open>indentation = ""\<close>), for values whose
  strings need no escape. No value of the examples holds a floating point payload.
\<close>

fun commaSeparated :: "string list \<Rightarrow> string" where
  "commaSeparated [] = []"
| "commaSeparated [x] = x"
| "commaSeparated (x # y # zs) = x @ CHR '','' # commaSeparated (y # zs)"

fun compactJson :: "json \<Rightarrow> string" where
  "compactJson JNull = ''null''"
| "compactJson (JBool b) = (if b then ''true'' else ''false'')"
| "compactJson (JInt n) = to_string n"
| "compactJson (JReal d) = []"
| "compactJson (JString s) = CHR ''\"'' # s @ [CHR ''\"'']"
| "compactJson (JArray items) = CHR ''['' # commaSeparated (map compactJson items) @ [CHR '']'']"
| "compactJson (JObject kvs) =
     CHR ''{''
     # commaSeparated (map (\<lambda>kv. CHR ''\"'' # fst kv @ CHR ''\"'' # CHR '':'' # compactJson (snd kv)) kvs)
     @ [CHR ''}'']"

definition exampleLib :: JsonLib where
  "exampleLib =
     \<lparr> parseFromStream =
         (\<lambda>s. if s = ''{\"name\":\"t\"}'' then Inr (JObject [(''name'', JString ''t'')])
              else if s = ''{\"name\":\"u\",\"depends_on\":[\"a1\"]}''
              then Inr (JObject [(''depends_on'', JArray [JString ''a1'']), (''name'', JString ''u'')])
              else if s = ''{\"name\":\"set_variable\",\"parameters\":[1]}''
              then Inr (JObject [(''name'', JString ''set_variable''), (''parameters'', JArray [JInt 1])])
              else Inl ''Syntax error: value, object or array expected.''),
       writeString = compactJson,
       isDouble = (\<lambda>v. case v of JInt n \<Rightarrow> True | JReal d \<Rightarrow> True | _ \<Rightarrow> False),
       to_string_asDouble = (\<lambda>v. case v of JInt n \<Rightarrow> to_string n @ ''.000000'' | _ \<Rightarrow> []),
       real_asString = (\<lambda>d. []), real_asInt = (\<lambda>d. Inr 0), real_asBool = (\<lambda>d. False) \<rparr>"

text \<open>The contents of the \<open>THOUGHT\<close> events of a trace, concatenated in emission order.\<close>

definition thoughtText :: "TokenEvent list \<Rightarrow> string" where
  "thoughtText events = concat (map ev_content (filter (\<lambda>e. ev_type e = THOUGHT) events))"

text \<open>Executors and actions of the examples.\<close>

definition nullExecutor :: ActionExecutor where
  "nullExecutor log action = Inr JNull"

definition failingExecutor :: ActionExecutor where
  "failingExecutor log action = (if action_name action = ''t'' then Inl ''boom'' else Inr JNull)"

definition unknownInternal :: ParsedAction where
  "unknownInternal = new_ParsedAction\<lparr>action_id := ''i1'', action_type := INTERNAL, action_name := ''frobnicate''\<rparr>"

definition arrayParameters :: ParsedAction where
  "arrayParameters =
     new_ParsedAction\<lparr>action_id := ''i1'', action_type := INTERNAL, action_name := ''set_variable'',
                      parameters := JArray [JInt 1]\<rparr>"

definition failingAction :: ParsedAction where
  "failingAction = new_ParsedAction\<lparr>action_id := ''a1'', action_name := ''t''\<rparr>"

definition skippingAction :: ParsedAction where
  "skippingAction = new_ParsedAction\<lparr>action_id := ''a1'', action_name := ''t'', skipOnError := True\<rparr>"

definition dependentAction :: ParsedAction where
  "dependentAction = new_ParsedAction\<lparr>action_id := ''b2'', action_name := ''u'', dependsOn := [''a1'']\<rparr>"






text \<open>A listening parser that holds the given action results.\<close>

definition withResults :: "json strmap \<Rightarrow> Parser" where
  "withResults results = (listening None)\<lparr>actionResults := results\<rparr>"


text \<open>
  An environment whose model answers every prompt with the same chunks, and an agent
  with an iteration cap whose parser has not been created yet.
\<close>

definition scriptedEnv :: "(string \<times> bool) list \<Rightarrow> AgentEnv" where
  "scriptedEnv chunks =
     \<lparr> buildFullPrompt = (\<lambda>a. []), streamingGuide = [],
       generateStream = (\<lambda>prompt. (chunks, None)),
       agentExecutor = nullExecutor, jsonLib = exampleLib \<rparr>"

definition freshAgent :: "int \<Rightarrow> Agent" where
  "freshAgent cap =
     \<lparr> conversationHistory = [], currentIteration = 0, iterationLimit = cap,
       streamingParser = None, agentContextFeeds = [] \<rparr>"

text \<open>\<open>receivedFinalResponse\<close> after a turn that took the parser from \<open>p\<close> to \<open>p1\<close>.\<close>

definition finalSeen :: "Parser \<Rightarrow> Parser \<Rightarrow> bool" where
  "finalSeen p p1 = list_ex isFinalResponse (drop (length (emitted p)) (emitted p1))"

section \<open>Properties\<close>

text \<open>
  C9. \<open>reset()\<close> puts the parser back to \<open>IDLE\<close> and clears the buffer, the four
  accumulators with the thought position, the attribute map, the action results, the
  completion map and the list of pending actions. The registered context feeds stay as
  they are, one just added included, and so do the executor and the callback.
\<close>

theorem reset_clears_all_but_context_feeds:
  "state (reset p) = IDLE \<and> buffer (reset p) = [] \<and> currentThought (reset p) = []
   \<and> currentAction (reset p) = [] \<and> currentResponse (reset p) = []
   \<and> currentContextFeed (reset p) = [] \<and> lastEmittedThoughtPos (reset p) = 0
   \<and> currentAttributes (reset p) = [] \<and> actionResults (reset p) = []
   \<and> actionCompleted (reset p) = [] \<and> pendingActions (reset p) = []
   \<and> contextFeeds (reset p) = contextFeeds p
   \<and> contextFeeds (reset (addContextFeed feed p)) = map_set (feed_id feed) feed (contextFeeds p)
   \<and> getContextFeedValue (feed_id feed) (reset (addContextFeed feed p)) = feed_content feed
   \<and> actionExecutor (reset p) = actionExecutor p \<and> tokenCallback (reset p) = tokenCallback p"
  by (simp add: reset_def addContextFeed_def getContextFeedValue_def map_of_map_set)


subsection \<open>Evaluation of the parser on concrete streams\<close>

lemmas step_defs =
  processStep_def openThought_def openAction_def openResponse_def openContextFeed_def
  closeThought_def closeAction_def closeResponse_def closeContextFeed_def accumulate_def
  detectTagStart_def detectTagEnd_def find_from_def

lemmas run_defs =
  parseToken_def processBuffer_def stripFences.simps processLoop.simps step_defs fence_def
  finalize_def setTokenCallback_def new_Parser_def Let_def listening_def handleThought_def
  handleResponse_def emitToken_def size_t_sub_def newline_def resolveVariables_def
  replacements_def responseIsFinal_def thoughtEvent_def new_TokenEvent_def

lemmas action_defs =
  handleAction_def submitAction_def parseAction_def cleanJSON_def trim_def is_trim_ws_def
  block_comment_end_def bindE_def readField_def readDependsOn_def isMember_def member_def
  asString_def asInt_def asBool_def attrsOf_def new_ParsedAction_def map_count_def
  canExecuteAction_def executeAction.simps scanPending.simps logDispatch_def storeResult_def
  catchClause_def erasePending_def parseAttributes_def match_attr_at_def is_word_def
  is_space_def is_quote_def parseType_def parseMode_def

text \<open>The loop of \<open>processBuffer\<close> ends only on an empty buffer, whatever the state.\<close>

lemma processLoop_drains: "processLoop lib p = Some q \<Longrightarrow> buffer q = []"
proof (induction lib p rule: processLoop.induct)
  case (1 lib p)
  then show ?case
    by (cases "buffer p = []"; cases "processStep lib p") (auto simp: processLoop.simps [of lib p])
qed

lemma processBuffer_drains: "processBuffer lib p = Some q \<Longrightarrow> buffer q = []"
  by (auto simp: processBuffer_def dest: processLoop_drains)

text \<open>
  C3. The claim: the untagged output \<open>hello\<close>, delivered with \<open>is_final = true\<close>, produces
  exactly one \<open>Response\<close> with content \<open>hello\<close>, \<open>is_final = true\<close> and \<open>fallback = true\<close>.
  The code: in \<open>IDLE\<close> the loop of \<open>processBuffer\<close> discards the buffer character by
  character before \<open>parseToken\<close> tests it, so the parser ends as it started and no event
  is emitted, for every JSON library and every executor.
\<close>

theorem untagged_hello_emits_nothing:
  "parseToken lib ''hello'' True (listening executor) = Some (listening executor)
   \<and> emitted (listening executor) = []"
  by (simp add: run_defs)

text \<open>
  C2. The claim: delivering a well-formed output in chunks emits the same events as
  delivering it in one call. The code: \<open><response>hi</response>\<close> in one call emits
  nothing, because the closing tag is searched in the whole buffer and the body in front
  of it is erased with it; the same text in three chunks emits the response.
\<close>

theorem whole_and_chunked_delivery_differ:
  "map_option emitted (parseToken lib ''<response>hi</response>'' True (listening executor))
     = Some []
   \<and> map_option emitted
        (parseTokens lib [(''<response>'', False), (''hi'', False), (''</response>'', True)]
           (listening executor))
     = Some [responseEvent ''hi'' True]"
  by (simp add: run_defs)

text \<open>
  C8. The claim: the \<open>Thought\<close> events between \<open><thought>\<close> and \<open></thought>\<close> concatenate
  to the text between the tags, also around an embedded \<open><action>\<close>. The code: a thought
  delivered in one call emits no event at all; and when an action is embedded, the flush
  at \<open><action>\<close> clears \<open>currentThought\<close>, so \<open></action>\<close> returns to \<open>IDLE\<close> and the
  thought text after it (\<open>def\<close> below) is discarded.
\<close>

theorem thought_text_is_lost:
  "map_option emitted (parseToken lib ''<thought>ok</thought>'' True (listening executor))
     = Some []
   \<and> map_option (\<lambda>p. (state p, thoughtText (emitted p)))
        (parseTokens exampleLib
           [(''<thought>'', False), (''abc'', False), (''<action id=\"a1\">'', False),
            (''{\"name\":\"t\"}'', False), (''</action>'', False), (''def'', False),
            (''</thought>'', True)]
           (listening (Some (\<lambda>log a. Inr JNull))))
     = Some (IDLE, ''abc'')"
  by (simp add: run_defs action_defs thoughtText_def exampleLib_def actionStart_def
        executorComplete_def)

subsection \<open>The scheduler\<close>

lemma emitted_executeInternalAction:
  "executeInternalAction lib action p = Inr (ok, p') \<Longrightarrow> emitted p' = emitted p"
  by (rule executeInternalAction_frame) simp_all

lemma tokenCallback_executeInternalAction:
  "executeInternalAction lib action p = Inr (ok, p') \<Longrightarrow> tokenCallback p' = tokenCallback p"
  by (rule executeInternalAction_frame) simp_all

text \<open>
  C10, as the code has it. With an executor configured, an action of type \<open>internal\<close> is
  handled in the parser. Whenever the handler returns, with \<open>true\<close> or with \<open>false\<close>, the
  action is marked completed, an \<open>ACTION_COMPLETE\<close> event carrying the handler's result as
  \<open>success\<close> goes to the registered callback, and every action that depends on nothing
  but this one can execute. The handler returns \<open>false\<close> on an unknown name and on a
  missing \<open>id\<close> or \<open>key\<close> parameter. When a conversion of the JSON library throws in the
  handler, as \<open>isMember\<close> does on parameters that are neither an object nor null, the
  exception leaves \<open>executeAction\<close> with the parser unchanged: the action is not marked
  and there is no \<open>ACTION_COMPLETE\<close> event. An action dispatched to the executor that
  fails is marked completed as well unless its \<open>skip_on_error\<close> is true, and then its
  dependents can execute too.
\<close>

theorem internal_action_completes_even_on_failure:
  assumes "actionExecutor p = Some executor" and "action_type action = INTERNAL"
  shows "(\<forall>success p1. executeInternalAction lib action p = Inr (success, p1) \<longrightarrow>
            (let p' = emitToken (internalComplete action success)
                        (p1\<lparr>actionCompleted := map_set (action_id action) True (actionCompleted p1)\<rparr>)
             in executeAction lib action p = Done p'
                \<and> map_of (actionCompleted p') (action_id action) = Some True
                \<and> (tokenCallback p \<longrightarrow> emitted p' = emitted p @ [internalComplete action success])
                \<and> map_of (ev_metadata (internalComplete action success)) ''success''
                    = Some (if success then ''true'' else ''false'')
                \<and> (\<forall>b. set (dependsOn b) \<subseteq> {action_id action} \<longrightarrow> canExecuteAction b p')))
         \<and> (action_name action \<notin> set [''add_context_feed'', ''remove_context_feed'', ''set_variable'',
                                        ''delete_variable'', ''clear_context'']
              \<longrightarrow> executeInternalAction lib action p = Inr (False, p))
         \<and> (action_name action \<in> set [''add_context_feed'', ''remove_context_feed'']
              \<and> isMember ''id'' (parameters action) = Inr False
              \<longrightarrow> executeInternalAction lib action p = Inr (False, p))
         \<and> (action_name action \<in> set [''set_variable'', ''delete_variable'']
              \<and> isMember ''key'' (parameters action) = Inr False
              \<longrightarrow> executeInternalAction lib action p = Inr (False, p))
         \<and> (\<forall>what. executeInternalAction lib action p = Inl what \<longrightarrow>
                executeAction lib action p = Thrown what p)
         \<and> (\<forall>what. action_name action \<in> set [''add_context_feed'', ''remove_context_feed'']
                \<and> isMember ''id'' (parameters action) = Inl what
                \<longrightarrow> executeInternalAction lib action p = Inl what)
         \<and> (\<forall>what. action_name action \<in> set [''set_variable'', ''delete_variable'']
                \<and> isMember ''key'' (parameters action) = Inl what
                \<longrightarrow> executeInternalAction lib action p = Inl what)
         \<and> (\<forall>b what. action_type b \<noteq> INTERNAL \<and> executor (map fst (dispatched p)) b = Inl what \<longrightarrow>
                (let q = emitToken (executionError b what)
                           ((logDispatch b p)
                              \<lparr>actionCompleted :=
                                 map_set (action_id b) (\<not> skipOnError b) (actionCompleted p)\<rparr>)
                 in executeAction lib b p = Done q
                    \<and> map_of (actionCompleted q) (action_id b) = Some (\<not> skipOnError b)
                    \<and> (\<not> skipOnError b \<longrightarrow>
                         (\<forall>c. set (dependsOn c) \<subseteq> {action_id b} \<longrightarrow> canExecuteAction c q))))"
proof (intro conjI allI impI)
  fix success p1
  assume ok: "executeInternalAction lib action p = Inr (success, p1)"
  define p' where "p' = emitToken (internalComplete action success)
                        (p1\<lparr>actionCompleted := map_set (action_id action) True (actionCompleted p1)\<rparr>)"
  have run: "executeAction lib action p = Done p'"
    using assms ok by (simp add: executeAction.simps p'_def)
  have compl: "map_of (actionCompleted p') (action_id action) = Some True"
    by (simp add: p'_def emitToken_def map_of_map_set)
  have ev: "tokenCallback p \<longrightarrow> emitted p' = emitted p @ [internalComplete action success]"
    using emitted_executeInternalAction [OF ok] tokenCallback_executeInternalAction [OF ok]
    by (simp add: p'_def emitToken_def)
  have meta: "map_of (ev_metadata (internalComplete action success)) ''success''
                = Some (if success then ''true'' else ''false'')"
    by (simp add: internalComplete_def map_of_map_set)
  have deps: "\<forall>b. set (dependsOn b) \<subseteq> {action_id action} \<longrightarrow> canExecuteAction b p'"
    using compl by (auto simp: canExecuteAction_def list_all_iff)
  show "let p' = emitToken (internalComplete action success)
                        (p1\<lparr>actionCompleted := map_set (action_id action) True (actionCompleted p1)\<rparr>)
        in executeAction lib action p = Done p'
                \<and> map_of (actionCompleted p') (action_id action) = Some True
                \<and> (tokenCallback p \<longrightarrow> emitted p' = emitted p @ [internalComplete action success])
                \<and> map_of (ev_metadata (internalComplete action success)) ''success''
                    = Some (if success then ''true'' else ''false'')
                \<and> (\<forall>b. set (dependsOn b) \<subseteq> {action_id action} \<longrightarrow> canExecuteAction b p')"
    unfolding Let_def p'_def [symmetric] using run compl ev meta deps by blast
next
  assume "action_name action \<notin> set [''add_context_feed'', ''remove_context_feed'', ''set_variable'',
                                        ''delete_variable'', ''clear_context'']"
  then show "executeInternalAction lib action p = Inr (False, p)"
    by (simp add: executeInternalAction_def)
next
  assume "action_name action \<in> set [''add_context_feed'', ''remove_context_feed'']
              \<and> isMember ''id'' (parameters action) = Inr False"
  then show "executeInternalAction lib action p = Inr (False, p)"
    by (auto simp: executeInternalAction_def bindE_def)
next
  assume "action_name action \<in> set [''set_variable'', ''delete_variable'']
              \<and> isMember ''key'' (parameters action) = Inr False"
  then show "executeInternalAction lib action p = Inr (False, p)"
    by (auto simp: executeInternalAction_def bindE_def)
next
  fix what
  assume "executeInternalAction lib action p = Inl what"
  then show "executeAction lib action p = Thrown what p"
    using assms by (simp add: executeAction.simps)
next
  fix what
  assume "action_name action \<in> set [''add_context_feed'', ''remove_context_feed'']
                \<and> isMember ''id'' (parameters action) = Inl what"
  then show "executeInternalAction lib action p = Inl what"
    by (auto simp: executeInternalAction_def bindE_def)
next
  fix what
  assume "action_name action \<in> set [''set_variable'', ''delete_variable'']
                \<and> isMember ''key'' (parameters action) = Inl what"
  then show "executeInternalAction lib action p = Inl what"
    by (auto simp: executeInternalAction_def bindE_def)
next
  fix b what
  assume f: "action_type b \<noteq> INTERNAL \<and> executor (map fst (dispatched p)) b = Inl what"
  define q where "q = emitToken (executionError b what)
                           ((logDispatch b p)
                              \<lparr>actionCompleted :=
                                 map_set (action_id b) (\<not> skipOnError b) (actionCompleted p)\<rparr>)"
  have run: "executeAction lib b p = Done q"
    using assms(1) f by (simp add: executeAction.simps catchClause_def q_def logDispatch_def)
  have compl: "map_of (actionCompleted q) (action_id b) = Some (\<not> skipOnError b)"
    by (simp add: q_def emitToken_def map_of_map_set)
  have deps: "\<not> skipOnError b \<longrightarrow>
                (\<forall>c. set (dependsOn c) \<subseteq> {action_id b} \<longrightarrow> canExecuteAction c q)"
    using compl by (auto simp: canExecuteAction_def list_all_iff)
  show "let q = emitToken (executionError b what)
                           ((logDispatch b p)
                              \<lparr>actionCompleted :=
                                 map_set (action_id b) (\<not> skipOnError b) (actionCompleted p)\<rparr>)
        in executeAction lib b p = Done q
           \<and> map_of (actionCompleted q) (action_id b) = Some (\<not> skipOnError b)
           \<and> (\<not> skipOnError b \<longrightarrow>
                (\<forall>c. set (dependsOn c) \<subseteq> {action_id b} \<longrightarrow> canExecuteAction c q))"
    unfolding Let_def q_def [symmetric] using run compl deps by blast
qed

theorem internal_action_completes_even_on_failure_witness:
  "actionExecutor (listening (Some failingExecutor)) = Some failingExecutor
   \<and> action_type unknownInternal = INTERNAL
   \<and> executeInternalAction exampleLib unknownInternal (listening (Some failingExecutor))
       = Inr (False, listening (Some failingExecutor))
   \<and> executeAction exampleLib unknownInternal (listening (Some failingExecutor))
       = Done ((listening (Some failingExecutor))
                 \<lparr>actionCompleted := [(''i1'', True)],
                  emitted := [internalComplete unknownInternal False]\<rparr>)
   \<and> action_type arrayParameters = INTERNAL
   \<and> action_name arrayParameters = ''set_variable''
   \<and> isMember ''key'' (parameters arrayParameters)
       = Inl ''in Json::Value::find(begin, end): requires objectValue or nullValue''
   \<and> executeAction exampleLib arrayParameters (listening (Some failingExecutor))
       = Thrown ''in Json::Value::find(begin, end): requires objectValue or nullValue''
           (listening (Some failingExecutor))
   \<and> action_type failingAction \<noteq> INTERNAL
   \<and> failingExecutor (map fst (dispatched (listening (Some failingExecutor)))) failingAction
       = Inl ''boom''
   \<and> \<not> skipOnError failingAction
   \<and> executeAction exampleLib failingAction (listening (Some failingExecutor))
       = Done ((listening (Some failingExecutor))
                 \<lparr>actionCompleted := [(''a1'', True)],
                  emitted := [executionError failingAction ''boom''],
                  dispatched := [(failingAction, [])]\<rparr>)"
proof -
  let ?p = "listening (Some failingExecutor)"
  let ?what = "''in Json::Value::find(begin, end): requires objectValue or nullValue''"
  have h1: "actionExecutor ?p = Some failingExecutor"
    by (simp add: listening_def setTokenCallback_def new_Parser_def)
  have h2: "action_type unknownInternal = INTERNAL"
    by (simp add: unknownInternal_def new_ParsedAction_def)
  have h3: "executeInternalAction exampleLib unknownInternal ?p = Inr (False, ?p)"
    by (simp add: executeInternalAction_def unknownInternal_def new_ParsedAction_def)
  have g2: "action_type arrayParameters = INTERNAL"
    by (simp add: arrayParameters_def new_ParsedAction_def)
  have g3: "action_name arrayParameters \<in> set [''set_variable'', ''delete_variable'']
            \<and> isMember ''key'' (parameters arrayParameters) = Inl ?what"
    by (simp add: arrayParameters_def new_ParsedAction_def isMember_def)
  have g4: "action_name arrayParameters = ''set_variable''"
    by (simp add: arrayParameters_def new_ParsedAction_def)
  have f2: "action_type failingAction \<noteq> INTERNAL
            \<and> failingExecutor (map fst (dispatched ?p)) failingAction = Inl ''boom''"
    by (simp add: failingAction_def failingExecutor_def new_ParsedAction_def)
  have f3: "\<not> skipOnError failingAction \<and> action_id failingAction = ''a1''"
    by (simp add: failingAction_def new_ParsedAction_def)
  note t = internal_action_completes_even_on_failure [OF h1 h2, of exampleLib]
  note u = internal_action_completes_even_on_failure [OF h1 g2, of exampleLib]
  have c1: "executeAction exampleLib unknownInternal ?p
              = Done (emitToken (internalComplete unknownInternal False)
                        (?p\<lparr>actionCompleted :=
                              map_set (action_id unknownInternal) True (actionCompleted ?p)\<rparr>))"
    using t [THEN conjunct1, rule_format, OF h3] by (simp add: Let_def)
  have thr: "executeInternalAction exampleLib arrayParameters ?p = Inl ?what"
    using u g3 by blast
  have c2: "executeAction exampleLib arrayParameters ?p = Thrown ?what ?p"
    using u thr by blast
  have "let q = emitToken (executionError failingAction ''boom'')
                  ((logDispatch failingAction ?p)
                     \<lparr>actionCompleted :=
                        map_set (action_id failingAction) (\<not> skipOnError failingAction)
                          (actionCompleted ?p)\<rparr>)
        in executeAction exampleLib failingAction ?p = Done q
           \<and> map_of (actionCompleted q) (action_id failingAction) = Some (\<not> skipOnError failingAction)
           \<and> (\<not> skipOnError failingAction \<longrightarrow>
                (\<forall>c. set (dependsOn c) \<subseteq> {action_id failingAction} \<longrightarrow> canExecuteAction c q))"
    using t f2 by blast
  then have c3: "executeAction exampleLib failingAction ?p
              = Done (emitToken (executionError failingAction ''boom'')
                        ((logDispatch failingAction ?p)
                           \<lparr>actionCompleted :=
                              map_set (action_id failingAction) (\<not> skipOnError failingAction)
                                (actionCompleted ?p)\<rparr>))"
    by (simp add: Let_def)
  have e1: "emitToken (internalComplete unknownInternal False)
              (?p\<lparr>actionCompleted := map_set (action_id unknownInternal) True (actionCompleted ?p)\<rparr>)
            = ?p\<lparr>actionCompleted := [(''i1'', True)],
                  emitted := [internalComplete unknownInternal False]\<rparr>"
    by (simp add: listening_def setTokenCallback_def new_Parser_def emitToken_def
          unknownInternal_def new_ParsedAction_def)
  have e3: "emitToken (executionError failingAction ''boom'')
              ((logDispatch failingAction ?p)
                 \<lparr>actionCompleted :=
                    map_set (action_id failingAction) (\<not> skipOnError failingAction)
                      (actionCompleted ?p)\<rparr>)
            = ?p\<lparr>actionCompleted := [(''a1'', True)],
                  emitted := [executionError failingAction ''boom''],
                  dispatched := [(failingAction, [])]\<rparr>"
    using f3
    by (simp add: listening_def setTokenCallback_def new_Parser_def emitToken_def logDispatch_def)
  show ?thesis
    using h1 h2 h3 g2 g3 g4 f2 f3 c1 c2 c3 unfolding e1 e3 by simp
qed

text \<open>
  C10 as the specification states it fails, twice. The internal action \<open>i1\<close> is
  \<open>set_variable\<close> with the array \<open>[1]\<close> as parameters: \<open>isMember\<close> throws, the action is
  not marked completed, and the events are \<open>ACTION_START\<close> and the \<open>ERROR\<close> of
  \<open>handleAction\<close>, with no \<open>ACTION_COMPLETE\<close>. And the action \<open>a1\<close>, dispatched to an
  executor that throws, with the default \<open>skip_on_error = false\<close>, is marked completed
  just as a failed internal action is, so that \<open>b2\<close>, which depends on it, can execute.
\<close>

theorem throwing_internal_action_is_not_completed:
  "executeAction exampleLib arrayParameters (listening (Some failingExecutor))
     = Thrown ''in Json::Value::find(begin, end): requires objectValue or nullValue''
         (listening (Some failingExecutor))
   \<and> map_option (\<lambda>p. (actionCompleted p, map ev_type (emitted p)))
       (parseTokens exampleLib
          [(''<action type=\"internal\" id=\"i1\">'', False),
           (''{\"name\":\"set_variable\",\"parameters\":[1]}'', False), (''</action>'', True)]
          (listening (Some failingExecutor)))
     = Some ([], [ACTION_START, ERROR])
   \<and> (case executeAction exampleLib failingAction (listening (Some failingExecutor)) of
         Done q \<Rightarrow> map_of (actionCompleted q) ''a1'' = Some True \<and> canExecuteAction dependentAction q
       | _ \<Rightarrow> False)"
proof -
  have a: "executeAction exampleLib arrayParameters (listening (Some failingExecutor))
     = Thrown ''in Json::Value::find(begin, end): requires objectValue or nullValue''
         (listening (Some failingExecutor))"
    by (simp add: executeAction.simps executeInternalAction_def arrayParameters_def
          new_ParsedAction_def isMember_def bindE_def listening_def setTokenCallback_def
          new_Parser_def)
  have b: "map_option (\<lambda>p. (actionCompleted p, map ev_type (emitted p)))
       (parseTokens exampleLib
          [(''<action type=\"internal\" id=\"i1\">'', False),
           (''{\"name\":\"set_variable\",\"parameters\":[1]}'', False), (''</action>'', True)]
          (listening (Some failingExecutor)))
     = Some ([], [ACTION_START, ERROR])"
    by (simp add: run_defs action_defs exampleLib_def actionStart_def parseError_def
          executeInternalAction_def)
  have c: "(case executeAction exampleLib failingAction (listening (Some failingExecutor)) of
         Done q \<Rightarrow> map_of (actionCompleted q) ''a1'' = Some True \<and> canExecuteAction dependentAction q
       | _ \<Rightarrow> False)"
    by (simp add: executeAction.simps catchClause_def failingAction_def failingExecutor_def
          dependentAction_def new_ParsedAction_def listening_def setTokenCallback_def
          new_Parser_def emitToken_def logDispatch_def canExecuteAction_def)
  show ?thesis
    using a b c by simp
qed

text \<open>
  C1, as the code has it. When the executor throws, the action is marked completed iff
  \<open>skip_on_error\<close> is false: \<open>actionCompleted[id] = !skipOnError\<close>. An \<open>ERROR\<close> event goes
  to the callback, no result is stored and the pending list is not scanned. With
  \<open>skip_on_error = true\<close> the entry is \<open>false\<close>, and no action whose \<open>depends_on\<close>
  contains the id can execute on the resulting parser.
\<close>

theorem executor_failure_marks_completed_unless_skip:
  assumes "actionExecutor p = Some executor" and "action_type action \<noteq> INTERNAL"
    and "executor (map fst (dispatched p)) action = Inl what"
  shows "(let p' = emitToken (executionError action what)
                     ((logDispatch action p)
                        \<lparr>actionCompleted :=
                           map_set (action_id action) (\<not> skipOnError action) (actionCompleted p)\<rparr>)
          in executeAction lib action p = Done p'
             \<and> map_of (actionCompleted p') (action_id action) = Some (\<not> skipOnError action)
             \<and> (tokenCallback p \<longrightarrow> emitted p' = emitted p @ [executionError action what])
             \<and> actionResults p' = actionResults p \<and> pendingActions p' = pendingActions p
             \<and> (skipOnError action \<longrightarrow>
                  (\<forall>b. action_id action \<in> set (dependsOn b) \<longrightarrow> \<not> canExecuteAction b p')))"
proof -
  define p' where "p' = emitToken (executionError action what)
                     ((logDispatch action p)
                        \<lparr>actionCompleted :=
                           map_set (action_id action) (\<not> skipOnError action) (actionCompleted p)\<rparr>)"
  have run: "executeAction lib action p = Done p'"
    using assms by (simp add: executeAction.simps catchClause_def p'_def logDispatch_def)
  have compl: "map_of (actionCompleted p') (action_id action) = Some (\<not> skipOnError action)"
    by (simp add: p'_def emitToken_def map_of_map_set)
  have ev: "tokenCallback p \<longrightarrow> emitted p' = emitted p @ [executionError action what]"
    by (simp add: p'_def emitToken_def logDispatch_def)
  have frame: "actionResults p' = actionResults p \<and> pendingActions p' = pendingActions p"
    by (simp add: p'_def emitToken_def logDispatch_def)
  have deps: "skipOnError action \<longrightarrow>
                  (\<forall>b. action_id action \<in> set (dependsOn b) \<longrightarrow> \<not> canExecuteAction b p')"
    using compl by (force simp: canExecuteAction_def list_all_iff)
  show ?thesis
    unfolding Let_def p'_def [symmetric] using run compl ev frame deps by blast
qed

theorem executor_failure_marks_completed_unless_skip_witness:
  "actionExecutor (listening (Some failingExecutor)) = Some failingExecutor
   \<and> action_type skippingAction \<noteq> INTERNAL
   \<and> failingExecutor (map fst (dispatched (listening (Some failingExecutor)))) skippingAction = Inl ''boom''
   \<and> skipOnError skippingAction
   \<and> executeAction exampleLib skippingAction (listening (Some failingExecutor))
       = Done ((listening (Some failingExecutor))
                 \<lparr>actionCompleted := [(''a1'', False)],
                  emitted := [executionError skippingAction ''boom''],
                  dispatched := [(skippingAction, [])]\<rparr>)
   \<and> \<not> canExecuteAction dependentAction
          ((listening (Some failingExecutor))
                 \<lparr>actionCompleted := [(''a1'', False)],
                  emitted := [executionError skippingAction ''boom''],
                  dispatched := [(skippingAction, [])]\<rparr>)"
proof -
  have h1: "actionExecutor (listening (Some failingExecutor)) = Some failingExecutor"
    by (simp add: listening_def setTokenCallback_def new_Parser_def)
  have h2: "action_type skippingAction \<noteq> INTERNAL"
    by (simp add: skippingAction_def new_ParsedAction_def)
  have h3: "failingExecutor (map fst (dispatched (listening (Some failingExecutor)))) skippingAction
              = Inl ''boom''"
    by (simp add: failingExecutor_def skippingAction_def new_ParsedAction_def)
  have h4: "skipOnError skippingAction \<and> action_id skippingAction = ''a1''
            \<and> action_id skippingAction \<in> set (dependsOn dependentAction)"
    by (simp add: skippingAction_def dependentAction_def new_ParsedAction_def)
  show ?thesis
    using h1 h2 h3 h4 executor_failure_marks_completed_unless_skip [OF h1 h2 h3, of exampleLib]
    by (auto simp: Let_def listening_def setTokenCallback_def new_Parser_def emitToken_def
          logDispatch_def)
qed

text \<open>
  C1 as the specification states it fails: \<open>a1\<close> has \<open>skip_on_error = false\<close> and its
  executor throws, yet it is marked completed, and \<open>b2\<close>, which depends on it, is
  dispatched to the executor.
\<close>

theorem failed_action_without_skip_is_completed:
  "map_option (\<lambda>p. (map (\<lambda>d. (action_id (fst d), skipOnError (fst d))) (dispatched p),
                      actionCompleted p, map ev_type (emitted p)))
     (parseTokens exampleLib
        [(''<action id=\"a1\">'', False), (''{\"name\":\"t\"}'', False), (''</action>'', False),
         (''<action id=\"b2\">'', False), (''{\"name\":\"u\",\"depends_on\":[\"a1\"]}'', False),
         (''</action>'', True)]
        (listening (Some failingExecutor)))
   = Some ([(''a1'', False), (''b2'', False)], [(''a1'', True), (''b2'', True)],
           [ACTION_START, ERROR, ACTION_START, ACTION_COMPLETE])"
  by (simp add: run_defs action_defs exampleLib_def actionStart_def executorComplete_def
        executionError_def failingExecutor_def)

subsection \<open>Dependencies at dispatch\<close>




lemma dispatched_storeResult [simp]:
  "dispatched (storeResult action result p) = dispatched p"
  by (simp add: storeResult_def Let_def emitToken_def)

lemma canExecuteAction_erasePending [simp]:
  "canExecuteAction action (erasePending i p) = canExecuteAction action p"
  by (simp add: canExecuteAction_def erasePending_def)





lemma dispatched_handleThought [simp]: "dispatched (handleThought p) = dispatched p"
  by (simp add: handleThought_def Let_def emitToken_def)

lemma dispatched_handleResponse [simp]: "dispatched (handleResponse lib p) = dispatched p"
  by (simp add: handleResponse_def Let_def emitToken_def)

lemma dispatched_handleContextFeed [simp]: "dispatched (handleContextFeed p) = dispatched p"
  by (simp add: handleContextFeed_def Let_def emitToken_def addContextFeed_def)





lemma dispatched_accumulate [simp]: "dispatched (accumulate p) = dispatched p"
  by (cases "buffer p"; cases "state p") (simp_all add: accumulate_def Let_def emitToken_def)







subsection \<open>Defaults of a parsed action\<close>

lemma bindE_Inr: "bindE m f = Inr y \<Longrightarrow> \<exists>x. m = Inr x \<and> f x = Inr y"
  by (cases m) (simp_all add: bindE_def)

lemma readField_absent:
  "map_of kvs key = None \<Longrightarrow> readField key (JObject kvs) conv upd a = Inr a"
  by (simp add: readField_def bindE_def isMember_def map_count_def)

lemma readField_frame:
  assumes "readField key root conv upd a = Inr a'" and "\<And>b x. g (upd b x) = g b"
  shows "g a' = g a"
  using assms
  by (cases "isMember key root"; cases "conv (member key root)")
     (auto simp: readField_def bindE_def split: if_splits)

lemma readDependsOn_absent:
  "map_of kvs ''depends_on'' = None \<Longrightarrow> readDependsOn (JObject kvs) a = Inr a"
  by (simp add: readDependsOn_def bindE_def isMember_def map_count_def)

lemma readDependsOn_frame:
  assumes "readDependsOn root a = Inr a'" and "\<And>b f. g (dependsOn_update f b) = g b"
  shows "g a' = g a"
  using assms
  by (cases "isMember ''depends_on'' root"; cases "member ''depends_on'' root")
     (auto simp: readDependsOn_def bindE_def split: if_splits)

lemma attrsOf_fields:
  "action_id (attrsOf attrs) = (case map_of attrs ''id'' of Some v \<Rightarrow> v | None \<Rightarrow> [])"
  "action_type (attrsOf attrs) = (case map_of attrs ''type'' of Some v \<Rightarrow> parseType v | None \<Rightarrow> TOOL)"
  "action_mode (attrsOf attrs) = (case map_of attrs ''mode'' of Some v \<Rightarrow> parseMode v | None \<Rightarrow> SYNC)"
  "parameters (attrsOf attrs) = JNull" "outputKey (attrsOf attrs) = []"
  "dependsOn (attrsOf attrs) = []" "timeout (attrsOf attrs) = 30"
  "retryCount (attrsOf attrs) = 0" "skipOnError (attrsOf attrs) = False"
  "action_name (attrsOf attrs) = []"
  by (simp_all add: attrsOf_def Let_def new_ParsedAction_def split: option.splits)

lemma parseAction_steps:
  assumes "parseFromStream lib (cleanJSON body) = Inr root"
    and "parseAction lib p body attrs = Inr a"
  obtains a1 a2 a3 a4 a5 a6 a7 where
    "readField ''name'' root (asString lib) (\<lambda>a x. a\<lparr>action_name := x\<rparr>) (attrsOf attrs) = Inr a1"
    "readField ''parameters'' root Inr (\<lambda>a x. a\<lparr>parameters := x\<rparr>) a1 = Inr a2"
    "readField ''output_key'' root (asString lib) (\<lambda>a x. a\<lparr>outputKey := x\<rparr>) a2 = Inr a3"
    "readDependsOn root a3 = Inr a4"
    "readField ''timeout'' root (asInt lib) (\<lambda>a x. a\<lparr>timeout := x\<rparr>) a4 = Inr a5"
    "readField ''retry_count'' root (asInt lib) (\<lambda>a x. a\<lparr>retryCount := x\<rparr>) a5 = Inr a6"
    "readField ''skip_on_error'' root (asBool lib) (\<lambda>a x. a\<lparr>skipOnError := x\<rparr>) a6 = Inr a7"
    "a = a7\<lparr>parameters := resolveVariablesJson lib p (parameters a7)\<rparr>"
proof -
  note pa = assms(2) [unfolded parseAction_def assms(1), simplified]
  from bindE_Inr [OF pa] obtain a1 where
    s1: "readField ''name'' root (asString lib) (\<lambda>a x. a\<lparr>action_name := x\<rparr>) (attrsOf attrs) = Inr a1"
    and r1: "bindE (readField ''parameters'' root Inr (\<lambda>a x. a\<lparr>parameters := x\<rparr>) a1) (\<lambda>a2.
          bindE (readField ''output_key'' root (asString lib) (\<lambda>a x. a\<lparr>outputKey := x\<rparr>) a2) (\<lambda>a3.
          bindE (readDependsOn root a3) (\<lambda>a4.
          bindE (readField ''timeout'' root (asInt lib) (\<lambda>a x. a\<lparr>timeout := x\<rparr>) a4) (\<lambda>a5.
          bindE (readField ''retry_count'' root (asInt lib) (\<lambda>a x. a\<lparr>retryCount := x\<rparr>) a5) (\<lambda>a6.
          bindE (readField ''skip_on_error'' root (asBool lib) (\<lambda>a x. a\<lparr>skipOnError := x\<rparr>) a6) (\<lambda>a7.
          Inr (a7\<lparr>parameters := resolveVariablesJson lib p (parameters a7)\<rparr>))))))) = Inr a"
    by blast
  from bindE_Inr [OF r1] obtain a2 where
    s2: "readField ''parameters'' root Inr (\<lambda>a x. a\<lparr>parameters := x\<rparr>) a1 = Inr a2"
    and r2: "bindE (readField ''output_key'' root (asString lib) (\<lambda>a x. a\<lparr>outputKey := x\<rparr>) a2) (\<lambda>a3.
          bindE (readDependsOn root a3) (\<lambda>a4.
          bindE (readField ''timeout'' root (asInt lib) (\<lambda>a x. a\<lparr>timeout := x\<rparr>) a4) (\<lambda>a5.
          bindE (readField ''retry_count'' root (asInt lib) (\<lambda>a x. a\<lparr>retryCount := x\<rparr>) a5) (\<lambda>a6.
          bindE (readField ''skip_on_error'' root (asBool lib) (\<lambda>a x. a\<lparr>skipOnError := x\<rparr>) a6) (\<lambda>a7.
          Inr (a7\<lparr>parameters := resolveVariablesJson lib p (parameters a7)\<rparr>)))))) = Inr a"
    by blast
  from bindE_Inr [OF r2] obtain a3 where
    s3: "readField ''output_key'' root (asString lib) (\<lambda>a x. a\<lparr>outputKey := x\<rparr>) a2 = Inr a3"
    and r3: "bindE (readDependsOn root a3) (\<lambda>a4.
          bindE (readField ''timeout'' root (asInt lib) (\<lambda>a x. a\<lparr>timeout := x\<rparr>) a4) (\<lambda>a5.
          bindE (readField ''retry_count'' root (asInt lib) (\<lambda>a x. a\<lparr>retryCount := x\<rparr>) a5) (\<lambda>a6.
          bindE (readField ''skip_on_error'' root (asBool lib) (\<lambda>a x. a\<lparr>skipOnError := x\<rparr>) a6) (\<lambda>a7.
          Inr (a7\<lparr>parameters := resolveVariablesJson lib p (parameters a7)\<rparr>))))) = Inr a"
    by blast
  from bindE_Inr [OF r3] obtain a4 where
    s4: "readDependsOn root a3 = Inr a4"
    and r4: "bindE (readField ''timeout'' root (asInt lib) (\<lambda>a x. a\<lparr>timeout := x\<rparr>) a4) (\<lambda>a5.
          bindE (readField ''retry_count'' root (asInt lib) (\<lambda>a x. a\<lparr>retryCount := x\<rparr>) a5) (\<lambda>a6.
          bindE (readField ''skip_on_error'' root (asBool lib) (\<lambda>a x. a\<lparr>skipOnError := x\<rparr>) a6) (\<lambda>a7.
          Inr (a7\<lparr>parameters := resolveVariablesJson lib p (parameters a7)\<rparr>)))) = Inr a"
    by blast
  from bindE_Inr [OF r4] obtain a5 where
    s5: "readField ''timeout'' root (asInt lib) (\<lambda>a x. a\<lparr>timeout := x\<rparr>) a4 = Inr a5"
    and r5: "bindE (readField ''retry_count'' root (asInt lib) (\<lambda>a x. a\<lparr>retryCount := x\<rparr>) a5) (\<lambda>a6.
          bindE (readField ''skip_on_error'' root (asBool lib) (\<lambda>a x. a\<lparr>skipOnError := x\<rparr>) a6) (\<lambda>a7.
          Inr (a7\<lparr>parameters := resolveVariablesJson lib p (parameters a7)\<rparr>))) = Inr a"
    by blast
  from bindE_Inr [OF r5] obtain a6 where
    s6: "readField ''retry_count'' root (asInt lib) (\<lambda>a x. a\<lparr>retryCount := x\<rparr>) a5 = Inr a6"
    and r6: "bindE (readField ''skip_on_error'' root (asBool lib) (\<lambda>a x. a\<lparr>skipOnError := x\<rparr>) a6) (\<lambda>a7.
          Inr (a7\<lparr>parameters := resolveVariablesJson lib p (parameters a7)\<rparr>)) = Inr a"
    by blast
  from bindE_Inr [OF r6] obtain a7 where
    s7: "readField ''skip_on_error'' root (asBool lib) (\<lambda>a x. a\<lparr>skipOnError := x\<rparr>) a6 = Inr a7"
    and r7: "a = a7\<lparr>parameters := resolveVariablesJson lib p (parameters a7)\<rparr>"
    by auto
  show ?thesis
    using that [OF s1 s2 s3 s4 s5 s6 s7 r7] .
qed


text \<open>
  C6, as the code has it. For an action body that parses to a JSON object, every record
  \<open>parseAction\<close> returns has: an empty \<open>id\<close> when the tag has no \<open>id\<close> attribute (nothing is
  synthesised and no event is emitted: \<open>parseAction\<close> returns the record only), type
  \<open>TOOL\<close> when there is no \<open>type\<close> attribute, mode \<open>ASYNC\<close> for a \<open>mode\<close> attribute that is
  neither \<open>sync\<close> nor \<open>fire_and_forget\<close>, JSON null for missing \<open>parameters\<close>, an empty
  \<open>output_key\<close>, no dependencies, timeout 30, retry count 0 and \<open>skip_on_error = false\<close>.
  A body with a \<open>name\<close> string and nothing else always parses to the attributes' record
  with that name.
\<close>

theorem parseAction_field_defaults:
  assumes "parseFromStream lib (cleanJSON body) = Inr (JObject kvs)"
  shows "(\<forall>a. parseAction lib p body attrs = Inr a \<longrightarrow>
            (map_of attrs ''id'' = None \<longrightarrow> action_id a = [])
          \<and> (map_of attrs ''type'' = None \<longrightarrow> action_type a = TOOL)
          \<and> (\<forall>v. map_of attrs ''mode'' = Some v \<and> v \<notin> set [''sync'', ''fire_and_forget'']
                 \<longrightarrow> action_mode a = ASYNC)
          \<and> (map_of kvs ''parameters'' = None \<longrightarrow> parameters a = JNull)
          \<and> (map_of kvs ''output_key'' = None \<longrightarrow> outputKey a = [])
          \<and> (map_of kvs ''depends_on'' = None \<longrightarrow> dependsOn a = [])
          \<and> (map_of kvs ''timeout'' = None \<longrightarrow> timeout a = 30)
          \<and> (map_of kvs ''retry_count'' = None \<longrightarrow> retryCount a = 0)
          \<and> (map_of kvs ''skip_on_error'' = None \<longrightarrow> skipOnError a = False))
       \<and> (\<forall>n. kvs = [(''name'', JString n)] \<longrightarrow>
              parseAction lib p body attrs = Inr ((attrsOf attrs)\<lparr>action_name := n\<rparr>))"
proof (intro conjI allI impI)
  fix n assume "kvs = [(''name'', JString n)]"
  then show "parseAction lib p body attrs = Inr ((attrsOf attrs)\<lparr>action_name := n\<rparr>)"
    using assms
    by (simp add: parseAction_def readField_def readDependsOn_def bindE_def isMember_def
          member_def map_count_def asString_def attrsOf_fields)
next
  fix a assume pa: "parseAction lib p body attrs = Inr a"
  from parseAction_steps [OF assms pa] obtain a1 a2 a3 a4 a5 a6 a7 where
    s1: "readField ''name'' (JObject kvs) (asString lib) (\<lambda>a x. a\<lparr>action_name := x\<rparr>) (attrsOf attrs) = Inr a1"
    and s2: "readField ''parameters'' (JObject kvs) Inr (\<lambda>a x. a\<lparr>parameters := x\<rparr>) a1 = Inr a2"
    and s3: "readField ''output_key'' (JObject kvs) (asString lib) (\<lambda>a x. a\<lparr>outputKey := x\<rparr>) a2 = Inr a3"
    and s4: "readDependsOn (JObject kvs) a3 = Inr a4"
    and s5: "readField ''timeout'' (JObject kvs) (asInt lib) (\<lambda>a x. a\<lparr>timeout := x\<rparr>) a4 = Inr a5"
    and s6: "readField ''retry_count'' (JObject kvs) (asInt lib) (\<lambda>a x. a\<lparr>retryCount := x\<rparr>) a5 = Inr a6"
    and s7: "readField ''skip_on_error'' (JObject kvs) (asBool lib) (\<lambda>a x. a\<lparr>skipOnError := x\<rparr>) a6 = Inr a7"
    and fin: "a = a7\<lparr>parameters := resolveVariablesJson lib p (parameters a7)\<rparr>"
    by blast
  have id: "action_id a = action_id (attrsOf attrs)"
    using readField_frame [OF s1, of action_id] readField_frame [OF s2, of action_id]
      readField_frame [OF s3, of action_id] readDependsOn_frame [OF s4, of action_id]
      readField_frame [OF s5, of action_id] readField_frame [OF s6, of action_id]
      readField_frame [OF s7, of action_id] fin
    by simp
  have ty: "action_type a = action_type (attrsOf attrs)"
    using readField_frame [OF s1, of action_type] readField_frame [OF s2, of action_type]
      readField_frame [OF s3, of action_type] readDependsOn_frame [OF s4, of action_type]
      readField_frame [OF s5, of action_type] readField_frame [OF s6, of action_type]
      readField_frame [OF s7, of action_type] fin
    by simp
  have mo: "action_mode a = action_mode (attrsOf attrs)"
    using readField_frame [OF s1, of action_mode] readField_frame [OF s2, of action_mode]
      readField_frame [OF s3, of action_mode] readDependsOn_frame [OF s4, of action_mode]
      readField_frame [OF s5, of action_mode] readField_frame [OF s6, of action_mode]
      readField_frame [OF s7, of action_mode] fin
    by simp
  show "map_of attrs ''id'' = None \<Longrightarrow> action_id a = []"
    using id by (simp add: attrsOf_fields)
  show "map_of attrs ''type'' = None \<Longrightarrow> action_type a = TOOL"
    using ty by (simp add: attrsOf_fields)
  show "\<And>v. map_of attrs ''mode'' = Some v \<and> v \<notin> set [''sync'', ''fire_and_forget'']
          \<Longrightarrow> action_mode a = ASYNC"
    using mo by (auto simp: attrsOf_fields parseMode_def)
  show "map_of kvs ''parameters'' = None \<Longrightarrow> parameters a = JNull"
  proof -
    assume ab: "map_of kvs ''parameters'' = None"
    have "a2 = a1" using s2 by (simp add: readField_absent [OF ab])
    then have "parameters a7 = parameters (attrsOf attrs)"
      using readField_frame [OF s1, of parameters]
        readField_frame [OF s3, of parameters] readDependsOn_frame [OF s4, of parameters]
        readField_frame [OF s5, of parameters] readField_frame [OF s6, of parameters]
        readField_frame [OF s7, of parameters]
      by simp
    then show ?thesis using fin by (simp add: attrsOf_fields)
  qed
  show "map_of kvs ''output_key'' = None \<Longrightarrow> outputKey a = []"
  proof -
    assume ab: "map_of kvs ''output_key'' = None"
    have "a3 = a2" using s3 by (simp add: readField_absent [OF ab])
    then have "outputKey a7 = outputKey (attrsOf attrs)"
      using readField_frame [OF s1, of outputKey] readField_frame [OF s2, of outputKey]
        readDependsOn_frame [OF s4, of outputKey]
        readField_frame [OF s5, of outputKey] readField_frame [OF s6, of outputKey]
        readField_frame [OF s7, of outputKey]
      by simp
    then show ?thesis using fin by (simp add: attrsOf_fields)
  qed
  show "map_of kvs ''depends_on'' = None \<Longrightarrow> dependsOn a = []"
  proof -
    assume ab: "map_of kvs ''depends_on'' = None"
    have "a4 = a3" using s4 by (simp add: readDependsOn_absent [OF ab])
    then have "dependsOn a7 = dependsOn (attrsOf attrs)"
      using readField_frame [OF s1, of dependsOn] readField_frame [OF s2, of dependsOn]
        readField_frame [OF s3, of dependsOn]
        readField_frame [OF s5, of dependsOn] readField_frame [OF s6, of dependsOn]
        readField_frame [OF s7, of dependsOn]
      by simp
    then show ?thesis using fin by (simp add: attrsOf_fields)
  qed
  show "map_of kvs ''timeout'' = None \<Longrightarrow> timeout a = 30"
  proof -
    assume ab: "map_of kvs ''timeout'' = None"
    have "a5 = a4" using s5 by (simp add: readField_absent [OF ab])
    then have "timeout a7 = timeout (attrsOf attrs)"
      using readField_frame [OF s1, of timeout] readField_frame [OF s2, of timeout]
        readField_frame [OF s3, of timeout] readDependsOn_frame [OF s4, of timeout]
        readField_frame [OF s6, of timeout] readField_frame [OF s7, of timeout]
      by simp
    then show ?thesis using fin by (simp add: attrsOf_fields)
  qed
  show "map_of kvs ''retry_count'' = None \<Longrightarrow> retryCount a = 0"
  proof -
    assume ab: "map_of kvs ''retry_count'' = None"
    have "a6 = a5" using s6 by (simp add: readField_absent [OF ab])
    then have "retryCount a7 = retryCount (attrsOf attrs)"
      using readField_frame [OF s1, of retryCount] readField_frame [OF s2, of retryCount]
        readField_frame [OF s3, of retryCount] readDependsOn_frame [OF s4, of retryCount]
        readField_frame [OF s5, of retryCount] readField_frame [OF s7, of retryCount]
      by simp
    then show ?thesis using fin by (simp add: attrsOf_fields)
  qed
  show "map_of kvs ''skip_on_error'' = None \<Longrightarrow> skipOnError a = False"
  proof -
    assume ab: "map_of kvs ''skip_on_error'' = None"
    have "a7 = a6" using s7 by (simp add: readField_absent [OF ab])
    then have "skipOnError a7 = skipOnError (attrsOf attrs)"
      using readField_frame [OF s1, of skipOnError] readField_frame [OF s2, of skipOnError]
        readField_frame [OF s3, of skipOnError] readDependsOn_frame [OF s4, of skipOnError]
        readField_frame [OF s5, of skipOnError] readField_frame [OF s6, of skipOnError]
      by simp
    then show ?thesis using fin by (simp add: attrsOf_fields)
  qed
qed


lemmas parse_defs =
  parseAction_def cleanJSON_def trim_def is_trim_ws_def block_comment_end_def bindE_def
  readField_def readDependsOn_def isMember_def member_def asString_def asInt_def asBool_def
  attrsOf_def new_ParsedAction_def map_count_def is_space_def newline_def parseType_def
  parseMode_def

theorem parseAction_field_defaults_witness:
  "parseFromStream exampleLib (cleanJSON ''{\"name\":\"t\"}'') = Inr (JObject [(''name'', JString ''t'')])
   \<and> map_of [(''mode'', ''parallel'')] ''id'' = None
   \<and> map_of [(''mode'', ''parallel'')] ''type'' = None
   \<and> map_of [(''mode'', ''parallel'')] ''mode'' = Some ''parallel''
   \<and> ''parallel'' \<notin> set [''sync'', ''fire_and_forget'']
   \<and> map_of [(''name'', JString ''t'')] ''output_key'' = None
   \<and> parseAction exampleLib (listening None) ''{\"name\":\"t\"}'' [(''mode'', ''parallel'')]
       = Inr \<lparr> action_id = [], action_type = TOOL, action_mode = ASYNC, action_name = ''t'',
               parameters = JNull, outputKey = [], dependsOn = [], embeddedInThought = False,
               timeout = 30, retryCount = 0, skipOnError = False \<rparr>"
proof -
  have h1: "parseFromStream exampleLib (cleanJSON ''{\"name\":\"t\"}'')
              = Inr (JObject [(''name'', JString ''t'')])"
    by (simp add: exampleLib_def cleanJSON_def trim_def is_trim_ws_def block_comment_end_def
          is_space_def newline_def)
  note t = parseAction_field_defaults [OF h1, of "listening None" "[(''mode'', ''parallel'')]"]
  have run: "parseAction exampleLib (listening None) ''{\"name\":\"t\"}'' [(''mode'', ''parallel'')]
               = Inr ((attrsOf [(''mode'', ''parallel'')])\<lparr>action_name := ''t''\<rparr>)"
    by (rule t [THEN conjunct2, rule_format, OF refl])
  have "(attrsOf [(''mode'', ''parallel'')])\<lparr>action_name := ''t''\<rparr>
          = \<lparr> action_id = [], action_type = TOOL, action_mode = ASYNC, action_name = ''t'',
               parameters = JNull, outputKey = [], dependsOn = [], embeddedInThought = False,
               timeout = 30, retryCount = 0, skipOnError = False \<rparr>"
    by (simp add: attrsOf_def new_ParsedAction_def parseMode_def)
  then show ?thesis
    using h1 run by simp
qed

text \<open>
  C6 as the specification states it fails: with \<open>id = "a1"\<close> the output key is empty, not
  \<open>a1\<close>, and the parameters are null, not \<open>{}\<close>; without an \<open>id\<close> attribute the identifier is
  the empty string.
\<close>

theorem parseAction_leaves_id_and_output_key_empty:
  "(case parseAction exampleLib (listening None) ''{\"name\":\"t\"}''
           [(''id'', ''a1''), (''mode'', ''async''), (''type'', ''tool'')] of
      Inr a \<Rightarrow> action_id a = ''a1'' \<and> outputKey a = [] \<and> parameters a = JNull
    | Inl what \<Rightarrow> False)
   \<and> (case parseAction exampleLib (listening None) ''{\"name\":\"t\"}''
             [(''mode'', ''async''), (''type'', ''tool'')] of
        Inr a \<Rightarrow> action_id a = []
      | Inl what \<Rightarrow> False)"
  by (simp add: parse_defs exampleLib_def)

subsection \<open>Variable resolution\<close>










text \<open>
  Numeric values go through the library: \<open>isDouble()\<close> is asked first, and where it is
  true for an integral value the branch of \<open>asInt64()\<close> is not reached and the integer is
  printed as a \<open>double\<close>.
\<close>

lemma integer_is_rendered_as_double:
  "resolveVariables exampleLib (withResults [(''sum'', JInt 7)]) ''= $sum.'' = ''= 7.000000.''"
  by (simp add: withResults_def resolveVariables_def replacements_def lookupVariable_def
        scalarRendering_def exampleLib_def to_string_def is_word_def replace_def)

subsection \<open>The iteration loop\<close>

lemma promptLoop_stop:
  "\<not> (shouldContinue \<and> currentIteration a < iterationLimit a) \<Longrightarrow>
     promptLoop env callback shouldContinue a = Returned a"
  by (subst promptLoop.simps) (simp only: if_False simp_thms)

lemma promptLoop_continue:
  "shouldContinue \<and> currentIteration a < iterationLimit a \<Longrightarrow>
     promptLoop env callback shouldContinue a =
       (case streamingParser a of
           None \<Rightarrow> UndefinedBehaviour
         | Some p \<Rightarrow>
             (case streamTurn env p a of
                None \<Rightarrow> UndefinedBehaviour
              | Some (p1, Some what) \<Rightarrow> Raised what (a\<lparr>streamingParser := Some p1\<rparr>)
              | Some (p1, None) \<Rightarrow>
                  promptLoop env callback
                    (fst (afterTurn env callback
                            (list_ex isFinalResponse (drop (length (emitted p)) (emitted p1))) p1 a))
                    (snd (afterTurn env callback
                            (list_ex isFinalResponse (drop (length (emitted p)) (emitted p1))) p1 a))))"
  by (subst promptLoop.simps) (simp only: if_True simp_thms)

lemma promptLoop_bounds:
  "promptLoop env callback shouldContinue a = Returned a' \<Longrightarrow>
     currentIteration a \<le> currentIteration a' \<and> iterationLimit a' = iterationLimit a
     \<and> (currentIteration a \<le> iterationLimit a \<longrightarrow> currentIteration a' \<le> iterationLimit a)"
proof (induction env callback shouldContinue a rule: promptLoop.induct)
  case (1 env callback shouldContinue a)
  show ?case
  proof (cases "shouldContinue \<and> currentIteration a < iterationLimit a")
    case False
    then show ?thesis
      using "1.prems" by (auto simp: promptLoop_stop)
  next
    case True
    note pr = "1.prems" [unfolded promptLoop_continue [OF True]]
    from pr obtain p where p: "streamingParser a = Some p"
      by (cases "streamingParser a") simp_all
    from pr p obtain p1 where t: "streamTurn env p a = Some (p1, None)"
      by (cases "streamTurn env p a") (auto split: option.splits)
    let ?r = "afterTurn env callback
                (list_ex isFinalResponse (drop (length (emitted p)) (emitted p1))) p1 a"
    have run: "promptLoop env callback (fst ?r) (snd ?r) = Returned a'"
      using pr p t by simp
    have ih: "currentIteration (snd ?r) \<le> currentIteration a'
              \<and> iterationLimit a' = iterationLimit (snd ?r)
              \<and> (currentIteration (snd ?r) \<le> iterationLimit (snd ?r)
                   \<longrightarrow> currentIteration a' \<le> iterationLimit (snd ?r))"
      using "1.IH" [OF True p t refl refl run] .
    have c: "currentIteration (snd ?r) = currentIteration a + 1"
      and l: "iterationLimit (snd ?r) = iterationLimit a"
      by (simp_all add: afterTurn_def Let_def addToHistory_def)
    show ?thesis
      using ih True unfolding c l by auto
  qed
qed

text \<open>
  The decision of the loop after a turn of the model that ends without an exception. If
  the parser has emitted a \<open>RESPONSE\<close> event with \<open>is_final = true\<close> during the turn, the
  loop returns after it, with the iteration counter advanced by one and the history
  unchanged. Otherwise the counter advances by one, the envelope \<open><iteration_k>\<close> of the
  turn is appended to the history as an \<open>assistant\<close> record, and the loop goes on iff the
  counter is still below the cap. Whenever the loop returns, it has advanced the counter
  and not beyond the cap.
\<close>

lemma promptLoop_after_turn:
  assumes "currentIteration a < iterationLimit a" and "streamingParser a = Some p"
    and "streamTurn env p a = Some (p1, None)"
  shows "(finalSeen p p1 \<longrightarrow>
            promptLoop env callback True a
              = Returned (a\<lparr>currentIteration := currentIteration a + 1,
                            streamingParser := Some (p1\<lparr>tokenCallback := callback\<rparr>)\<rparr>))
         \<and> (\<not> finalSeen p p1 \<longrightarrow>
              promptLoop env callback True a
                = promptLoop env callback (currentIteration a + 1 < iterationLimit a)
                    ((addToHistory ''assistant''
                        (iterationEnvelope (jsonLib env) (currentIteration a) (actionResults p1))
                        (a\<lparr>currentIteration := currentIteration a + 1\<rparr>))
                       \<lparr>streamingParser := Some (p1\<lparr>tokenCallback := callback\<rparr>)\<rparr>))
         \<and> (\<forall>a'. promptLoop env callback True a = Returned a' \<longrightarrow>
                currentIteration a < currentIteration a'
                \<and> currentIteration a' \<le> iterationLimit a)
         \<and> promptLoop env callback False a = Returned a"
proof (intro conjI impI allI)
  assume f: "finalSeen p p1"
  show "promptLoop env callback True a
              = Returned (a\<lparr>currentIteration := currentIteration a + 1,
                            streamingParser := Some (p1\<lparr>tokenCallback := callback\<rparr>)\<rparr>)"
    using assms f
    by (simp add: promptLoop_continue finalSeen_def afterTurn_def Let_def promptLoop_stop)
next
  assume f: "\<not> finalSeen p p1"
  show "promptLoop env callback True a
                = promptLoop env callback (currentIteration a + 1 < iterationLimit a)
                    ((addToHistory ''assistant''
                        (iterationEnvelope (jsonLib env) (currentIteration a) (actionResults p1))
                        (a\<lparr>currentIteration := currentIteration a + 1\<rparr>))
                       \<lparr>streamingParser := Some (p1\<lparr>tokenCallback := callback\<rparr>)\<rparr>)"
    using assms f
    by (simp add: promptLoop_continue finalSeen_def afterTurn_def Let_def addToHistory_def not_le)
next
  fix a' assume r: "promptLoop env callback True a = Returned a'"
  let ?r = "afterTurn env callback
                (list_ex isFinalResponse (drop (length (emitted p)) (emitted p1))) p1 a"
  have run: "promptLoop env callback (fst ?r) (snd ?r) = Returned a'"
    using r assms by (simp add: promptLoop_continue)
  have c: "currentIteration (snd ?r) = currentIteration a + 1"
    and l: "iterationLimit (snd ?r) = iterationLimit a"
    by (simp_all add: afterTurn_def Let_def addToHistory_def)
  from promptLoop_bounds [OF run] show "currentIteration a < currentIteration a'"
    unfolding c l by simp
  from promptLoop_bounds [OF run] assms(1) show "currentIteration a' \<le> iterationLimit a"
    unfolding c l by simp
next
  show "promptLoop env callback False a = Returned a"
    by (simp add: promptLoop_stop)
qed


lemmas turn_defs =
  streamTurn_def scriptedEnv_def freshAgent_def reset_def finalSeen_def
  isFinalResponse_def responseEvent_def

text \<open>
  C5 fails in the code. The model answers every prompt with the well-formed
  \<open><response final="true">done</response>\<close>. Delivered in one call of \<open>parseToken\<close>, as
  the default \<open>generateStream\<close> delivers it, the closing tag is found in the pass that
  consumed the opening tag and the body is erased unread: \<open>handleResponse\<close> sees an empty
  body and emits no event, so the loop does not stop and runs to the cap of 2, with two
  envelopes in the history. The same holds for the chunked \<open><response final="true">\<close>,
  \<open></response>\<close>, whose body is empty. Delivered as the chunks
  \<open><response final="true">\<close>, \<open>done\<close>, \<open></response>\<close>, the same output emits the final
  \<open>RESPONSE\<close> event and the loop returns after the first iteration.
\<close>

theorem final_response_does_not_stop_the_loop:
  "map_option emitted
     (parseTokens exampleLib [(''<response final=\"true\">done</response>'', True)]
        (listening (Some nullExecutor))) = Some []
   \<and> (case promptStreaming
               (scriptedEnv [(''<response final=\"true\">done</response>'', True)])
               ''hi'' True (freshAgent 2) of
          Returned a \<Rightarrow>
            currentIteration a = 2
            \<and> conversationHistory a
                = [(''user'', ''hi''),
                   (''assistant'', ''<iteration_0>'' @ [newline] @ ''</iteration_0>''),
                   (''assistant'', ''<iteration_1>'' @ [newline] @ ''</iteration_1>'')]
        | _ \<Rightarrow> False)
   \<and> map_option emitted
       (parseTokens exampleLib [(''<response final=\"true\">'', False), (''</response>'', True)]
          (listening (Some nullExecutor))) = Some []
   \<and> (case promptStreaming
               (scriptedEnv [(''<response final=\"true\">'', False), (''</response>'', True)])
               ''hi'' True (freshAgent 2) of
          Returned a \<Rightarrow>
            currentIteration a = 2
            \<and> conversationHistory a
                = [(''user'', ''hi''),
                   (''assistant'', ''<iteration_0>'' @ [newline] @ ''</iteration_0>''),
                   (''assistant'', ''<iteration_1>'' @ [newline] @ ''</iteration_1>'')]
        | _ \<Rightarrow> False)
   \<and> map_option (\<lambda>p. map (\<lambda>e. (ev_type e, ev_content e, ev_metadata e)) (emitted p))
       (parseTokens exampleLib
          [(''<response final=\"true\">'', False), (''done'', False), (''</response>'', True)]
          (listening (Some nullExecutor)))
       = Some [(RESPONSE, ''done'', [(''is_final'', ''true'')])]
   \<and> (case promptStreaming
               (scriptedEnv [(''<response final=\"true\">'', False), (''done'', False),
                             (''</response>'', True)])
               ''hi'' True (freshAgent 2) of
          Returned a \<Rightarrow> currentIteration a = 1 \<and> conversationHistory a = [(''user'', ''hi'')]
        | _ \<Rightarrow> False)"
proof -
  note defs = promptStreaming_def initParser_def promptLoop_continue promptLoop_stop
        afterTurn_def addToHistory_def iterationEnvelope_def to_string_def
        MAX_HISTORY_CONTENT_LEN_def turn_defs run_defs match_attr_at_def parseAttributes_def
        is_word_def is_space_def is_quote_def
  have a: "map_option emitted
     (parseTokens exampleLib [(''<response final=\"true\">done</response>'', True)]
        (listening (Some nullExecutor))) = Some []"
    by (simp add: defs)
  have b: "(case promptStreaming
               (scriptedEnv [(''<response final=\"true\">done</response>'', True)])
               ''hi'' True (freshAgent 2) of
          Returned a \<Rightarrow>
            currentIteration a = 2
            \<and> conversationHistory a
                = [(''user'', ''hi''),
                   (''assistant'', ''<iteration_0>'' @ [newline] @ ''</iteration_0>''),
                   (''assistant'', ''<iteration_1>'' @ [newline] @ ''</iteration_1>'')]
        | _ \<Rightarrow> False)"
    by (simp add: defs)
  have c: "map_option emitted
       (parseTokens exampleLib [(''<response final=\"true\">'', False), (''</response>'', True)]
          (listening (Some nullExecutor))) = Some []"
    by (simp add: defs)
  have d: "(case promptStreaming
               (scriptedEnv [(''<response final=\"true\">'', False), (''</response>'', True)])
               ''hi'' True (freshAgent 2) of
          Returned a \<Rightarrow>
            currentIteration a = 2
            \<and> conversationHistory a
                = [(''user'', ''hi''),
                   (''assistant'', ''<iteration_0>'' @ [newline] @ ''</iteration_0>''),
                   (''assistant'', ''<iteration_1>'' @ [newline] @ ''</iteration_1>'')]
        | _ \<Rightarrow> False)"
    by (simp add: defs)
  have e: "map_option (\<lambda>p. map (\<lambda>e. (ev_type e, ev_content e, ev_metadata e)) (emitted p))
       (parseTokens exampleLib
          [(''<response final=\"true\">'', False), (''done'', False), (''</response>'', True)]
          (listening (Some nullExecutor)))
       = Some [(RESPONSE, ''done'', [(''is_final'', ''true'')])]"
    by (simp add: defs)
  have f: "(case promptStreaming
               (scriptedEnv [(''<response final=\"true\">'', False), (''done'', False),
                             (''</response>'', True)])
               ''hi'' True (freshAgent 2) of
          Returned a \<Rightarrow> currentIteration a = 1 \<and> conversationHistory a = [(''user'', ''hi'')]
        | _ \<Rightarrow> False)"
    by (simp add: defs)
  show ?thesis
    using a b c d e f by blast
qed

end
